theory Spec2Isabelle
  imports Main "HOL-Library.Char_ord" "HOL-Library.List_Lexorder" "HOL-Library.Product_Lexorder"
    "HOL-Library.Multiset"
begin

section \<open>Python strings and lists\<close>

text \<open>
  The parser of \<^verbatim>\<open>geodezyx/files_rw/read_rinex.py\<close> works on the lines of a file as
  Python strings. A string is a \<^typ>\<open>string\<close>; the helpers below are the Python string
  operations the source calls, on ASCII text.
\<close>

datatype error =
    UnboundLocalError | ValueError | TypeError | IndexError | KeyError
  | AttributeError | EmptyDataError | InvalidIndexError

text \<open>
  Whitespace as \<^verbatim>\<open>str.strip()\<close> and \<^verbatim>\<open>str.split()\<close> see it, for the code points
  below 256: the six ASCII blanks, the four separators \<open>0x1C\<close> to \<open>0x1F\<close>, the next-line
  character and the no-break space.
\<close>

definition is_space :: "char \<Rightarrow> bool" where
  "is_space c = (c = CHR '' '' \<or> c = CHR 0x09 \<or> c = CHR 0x0A \<or> c = CHR 0x0B \<or> c = CHR 0x0C
     \<or> c = CHR 0x0D \<or> c = CHR 0x1C \<or> c = CHR 0x1D \<or> c = CHR 0x1E \<or> c = CHR 0x1F
     \<or> c = CHR 0x85 \<or> c = CHR 0xA0)"

definition is_digit :: "char \<Rightarrow> bool" where
  "is_digit c = (CHR ''0'' \<le> c \<and> c \<le> CHR ''9'')"

text \<open>\<^verbatim>\<open>s.strip()\<close>\<close>

definition py_strip :: "string \<Rightarrow> string" where
  "py_strip s = rev (dropWhile is_space (rev (dropWhile is_space s)))"

text \<open>\<^verbatim>\<open>s.split()\<close>: the maximal runs of non-whitespace characters, in order.\<close>

fun split_ws :: "string \<Rightarrow> string \<Rightarrow> string list" where
  "split_ws w [] = (if w = [] then [] else [w])"
| "split_ws w (c # cs) =
     (if is_space c then (if w = [] then split_ws [] cs else w # split_ws [] cs)
      else split_ws (w @ [c]) cs)"

definition py_split :: "string \<Rightarrow> string list" where
  "py_split s = split_ws [] s"

text \<open>\<^verbatim>\<open>sep.join(xs)\<close>\<close>

fun py_join :: "string \<Rightarrow> string list \<Rightarrow> string" where
  "py_join sep [] = []"
| "py_join sep [x] = x"
| "py_join sep (x # y # ys) = x @ sep @ py_join sep (y # ys)"

text \<open>\<^verbatim>\<open>p in s\<close> for strings: \<open>p\<close> occurs in \<open>s\<close> as a contiguous substring.\<close>

fun contains :: "string \<Rightarrow> string \<Rightarrow> bool" where
  "contains p [] = (p = [])"
| "contains p (c # cs) = (take (length p) (c # cs) = p \<or> contains p cs)"

text \<open>
  \<^verbatim>\<open>int(s)\<close> in base 10. The blanks that \<^verbatim>\<open>int\<close> drops around the number are
  not those of \<^verbatim>\<open>str.strip()\<close>: the separators \<open>0x1C\<close> to \<open>0x1F\<close> are not among
  them. One sign is allowed, and the rest is a non-empty run of digits in which single
  underscores may separate digits. Anything else raises \<^verbatim>\<open>ValueError\<close> (\<open>None\<close> here).
\<close>

definition is_int_space :: "char \<Rightarrow> bool" where
  "is_int_space c = (c = CHR '' '' \<or> c = CHR 0x09 \<or> c = CHR 0x0A \<or> c = CHR 0x0B \<or> c = CHR 0x0C
     \<or> c = CHR 0x0D \<or> c = CHR 0x85 \<or> c = CHR 0xA0)"

fun digits_ok :: "bool \<Rightarrow> string \<Rightarrow> bool" where
  "digits_ok prev_digit [] = prev_digit"
| "digits_ok prev_digit (c # cs) =
     (if is_digit c then digits_ok True cs
      else if c = CHR ''_'' \<and> prev_digit then (cs \<noteq> [] \<and> is_digit (hd cs) \<and> digits_ok False cs)
      else False)"

definition digits_val :: "string \<Rightarrow> nat" where
  "digits_val s = foldl (\<lambda>a c. 10 * a + (of_char c - 48)) 0 (filter is_digit s)"

definition py_int :: "string \<Rightarrow> int option" where
  "py_int s =
     (let t = rev (dropWhile is_int_space (rev (dropWhile is_int_space s))) in
      case t of
        [] \<Rightarrow> None
      | c # r \<Rightarrow>
          if c = CHR ''-'' then (if digits_ok False r then Some (- int (digits_val r)) else None)
          else if c = CHR ''+'' then (if digits_ok False r then Some (int (digits_val r)) else None)
          else (if digits_ok False t then Some (int (digits_val t)) else None))"

text \<open>Slices \<^verbatim>\<open>xs[a:b]\<close> and \<^verbatim>\<open>xs[a:]\<close> with non-negative bounds.\<close>

definition slice :: "'a list \<Rightarrow> nat \<Rightarrow> nat \<Rightarrow> 'a list" where
  "slice xs a b = drop a (take b xs)"

definition slice_to :: "'a list \<Rightarrow> nat \<Rightarrow> nat option \<Rightarrow> 'a list" where
  "slice_to xs a b = (case b of None \<Rightarrow> drop a xs | Some e \<Rightarrow> slice xs a e)"

text \<open>\<^verbatim>\<open>int(np.ceil(n / d))\<close> for an integer \<open>n\<close> and a positive constant \<open>d\<close>.\<close>

definition ceil_div :: "int \<Rightarrow> int \<Rightarrow> int" where
  "ceil_div n d = - ((- n) div d)"

section \<open>The epoch-line pattern\<close>

text \<open>
  \<^verbatim>\<open>re.search('^ {1,2}([0-9]{1,2} * ){5}', l)\<close>: one or two blanks at the start of
  the line, then five times one or two digits, any number of blanks and one more blank.
  A matcher maps a string to the remainders left by every way of matching a prefix of
  it, so that the pattern matches exactly when the list of remainders is not empty: the
  backtracking of the regular expression engine is the list of alternatives.
\<close>

type_synonym matcher = "string \<Rightarrow> string list"

definition rx_char :: "(char \<Rightarrow> bool) \<Rightarrow> matcher" where
  "rx_char P s = (case s of [] \<Rightarrow> [] | c # cs \<Rightarrow> if P c then [cs] else [])"

definition rx_seq :: "matcher \<Rightarrow> matcher \<Rightarrow> matcher" where
  "rx_seq p q s = concat (map q (p s))"

text \<open>\<open>p{1,2}\<close>\<close>

definition rx_one_or_two :: "matcher \<Rightarrow> matcher" where
  "rx_one_or_two p = rx_seq p (\<lambda>s. p s @ [s])"

text \<open>\<open>c*\<close> for a character class\<close>

fun rx_star :: "(char \<Rightarrow> bool) \<Rightarrow> matcher" where
  "rx_star P [] = [[]]"
| "rx_star P (c # cs) = (if P c then rx_star P cs @ [c # cs] else [c # cs])"

text \<open>\<open>p{n}\<close>\<close>

fun rx_times :: "nat \<Rightarrow> matcher \<Rightarrow> matcher" where
  "rx_times 0 p = (\<lambda>s. [s])"
| "rx_times (Suc n) p = rx_seq p (rx_times n p)"

definition is_blank :: "char \<Rightarrow> bool" where
  "is_blank c = (c = CHR '' '')"

definition re_epoch :: "string \<Rightarrow> bool" where
  "re_epoch l =
     (rx_seq (rx_one_or_two (rx_char is_blank))
        (rx_times 5 (rx_seq (rx_one_or_two (rx_char is_digit))
                       (rx_seq (rx_star is_blank) (rx_char is_blank)))) l \<noteq> [])"

section \<open>The EPOCH/SAT record of a RINEX 2 epoch block\<close>

text \<open>
  \<^verbatim>\<open>_sats_find(Lines_inp)\<close>. The local variables of the loop are the state. The
  timestamp of the epoch line comes from \<^verbatim>\<open>operational.read_rnx_epoch_line\<close>, which
  is outside the module: it is the parameter \<open>rd\<close>, and may raise. Before the first
  epoch line \<open>nsat\<close>, \<open>lineconcat\<close> and \<open>epoc\<close> are unbound in the source; they are
  never read then, because \<open>iline_bloc = 0\<close> and \<open>nlines_bloc = -1\<close> close both
  branches that read them.
\<close>

record sats_state =
  iline_bloc :: int
  nlines_bloc :: int
  nsat :: int
  lineconcat :: string
  epoc :: int

type_synonym bloc_tuple = "int \<times> int \<times> string \<times> string list \<times> nat"

definition sats_init :: sats_state where
  "sats_init = \<lparr>iline_bloc = 0, nlines_bloc = -1, nsat = 0, lineconcat = [], epoc = 0\<rparr>"

text \<open>\<^verbatim>\<open>[lineconcat[3*n:3*n+3] for n in range(nsat)]\<close>\<close>

definition sats_split :: "string \<Rightarrow> int \<Rightarrow> string list" where
  "sats_split lc n = map (\<lambda>k. slice lc (3 * k) (3 * k + 3)) [0..<nat n]"

text \<open>The first branch of the loop body: an epoch line resets the state.\<close>

definition on_epoch_line :: "(string \<Rightarrow> error + int) \<Rightarrow> string \<Rightarrow> sats_state \<Rightarrow> error + sats_state" where
  "on_epoch_line rd l st =
     (if re_epoch l then
        (case py_int (slice l 30 32) of
           None \<Rightarrow> Inl ValueError
         | Some n \<Rightarrow>
             (case rd l of
                Inl e \<Rightarrow> Inl e
              | Inr t \<Rightarrow> Inr \<lparr>iline_bloc = 0, nlines_bloc = ceil_div n 12, nsat = n,
                               lineconcat = [], epoc = t\<rparr>))
      else Inr st)"

text \<open>The second branch: the satellite text of the line is appended.\<close>

definition on_sat_line :: "string \<Rightarrow> sats_state \<Rightarrow> sats_state" where
  "on_sat_line l st =
     (if iline_bloc st \<le> nlines_bloc st
      then st\<lparr>lineconcat := lineconcat st @ py_strip (drop 32 l), iline_bloc := iline_bloc st + 1\<rparr>
      else st)"

fun sats_loop :: "(string \<Rightarrow> error + int) \<Rightarrow> sats_state \<Rightarrow> nat \<Rightarrow> string list \<Rightarrow> error + bloc_tuple option" where
  "sats_loop rd st il [] = Inr None"
| "sats_loop rd st il (l # ls) =
     (case on_epoch_line rd l st of
        Inl e \<Rightarrow> Inl e
      | Inr st1 \<Rightarrow>
          (let st2 = on_sat_line l st1 in
           if iline_bloc st2 = nlines_bloc st2
           then Inr (Some (epoc st2, nsat st2, lineconcat st2,
                           sats_split (lineconcat st2) (nsat st2), il))
           else sats_loop rd st2 (Suc il) ls))"

definition sats_find :: "(string \<Rightarrow> error + int) \<Rightarrow> string list \<Rightarrow> error + bloc_tuple option" where
  "sats_find rd Lines_inp = sats_loop rd sats_init 0 Lines_inp"

section \<open>Tables\<close>

text \<open>
  The parser builds its result with the table library (pandas). A table is a list of
  column names and a list of rows, each row carrying its index label. A cell is missing
  (\<open>NaN\<close>), the text of a field, a truth value, or a time stamp. A numeric field is kept
  as the text it was read from: the conversion of that text to a floating-point number is
  not modelled.
\<close>

datatype cell = NaN | Txt string | Bool bool | Stamp int

datatype label = Pos nat | Key "cell list"

record frame =
  columns :: "string list"
  rows :: "(label \<times> cell list) list"

text \<open>\<^verbatim>\<open>series.str[0]\<close>: the first character of a text cell, missing otherwise.\<close>

fun str0 :: "cell \<Rightarrow> cell" where
  "str0 (Txt (c # cs)) = Txt [c]"
| "str0 (Txt []) = NaN"
| "str0 NaN = NaN"
| "str0 (Bool b) = NaN"
| "str0 (Stamp t) = NaN"

subsection \<open>The fixed-width reader\<close>

text \<open>
  \<^verbatim>\<open>pd.read_fwf(B, header=None, widths=columns_width)\<close>. The buffer is read line by
  line (a line ends at a newline character). Each line is cut at the cumulated widths and
  every field is stripped of blanks, tabs, carriage returns and newlines. A line whose
  fields are all empty is skipped (\<^verbatim>\<open>skip_blank_lines\<close>); a buffer with no line left
  raises \<^verbatim>\<open>EmptyDataError\<close>. A field that is empty, or one of the library's markers
  of a missing value, is a missing cell. The type of a column is then inferred from all
  its cells: a column that is not numeric and whose cells are all missing or one of the
  words \<^verbatim>\<open>True\<close>, \<^verbatim>\<open>TRUE\<close>, \<^verbatim>\<open>true\<close>, \<^verbatim>\<open>False\<close>, \<^verbatim>\<open>FALSE\<close>, \<^verbatim>\<open>false\<close>
  becomes a column of truth values; any other text stays as it is. The rows are labelled
  \<open>0, 1, \<dots>\<close> in order.
\<close>

definition newline :: char where
  "newline = CHR 0x0A"

fun buf_lines :: "string \<Rightarrow> string \<Rightarrow> string list" where
  "buf_lines cur [] = (if cur = [] then [] else [cur])"
| "buf_lines cur (c # cs) =
     (if c = newline then (cur @ [c]) # buf_lines [] cs else buf_lines (cur @ [c]) cs)"

definition is_delim :: "char \<Rightarrow> bool" where
  "is_delim c = (c = CHR '' '' \<or> c = CHR 0x09 \<or> c = CHR 0x0A \<or> c = CHR 0x0D)"

definition fwf_strip :: "string \<Rightarrow> string" where
  "fwf_strip s = rev (dropWhile is_delim (rev (dropWhile is_delim s)))"

fun fwf_fields :: "nat list \<Rightarrow> string \<Rightarrow> string list" where
  "fwf_fields [] line = []"
| "fwf_fields (w # ws) line = fwf_strip (take w line) # fwf_fields ws (drop w line)"

definition na_values :: "string list" where
  "na_values = [[], ''#N/A'', ''#N/A N/A'', ''#NA'', ''-1.#IND'', ''-1.#QNAN'', ''-NaN'', ''-nan'',
     ''1.#IND'', ''1.#QNAN'', ''<NA>'', ''N/A'', ''NA'', ''NULL'', ''NaN'', ''None'', ''n/a'',
     ''nan'', ''null'']"

definition na_cell :: "string \<Rightarrow> cell" where
  "na_cell s = (if List.member na_values s then NaN else Txt s)"

definition row_blank :: "string list \<Rightarrow> bool" where
  "row_blank flds = list_all (\<lambda>e. py_strip e = []) flds"

definition fwf_records :: "nat list \<Rightarrow> string \<Rightarrow> string list list" where
  "fwf_records widths buf =
     filter (\<lambda>flds. \<not> row_blank flds) (map (fwf_fields widths) (buf_lines [] buf))"

definition true_values :: "string list" where
  "true_values = [''True'', ''TRUE'', ''true'']"

definition false_values :: "string list" where
  "false_values = [''False'', ''FALSE'', ''false'']"

definition bool_word :: "cell \<Rightarrow> bool" where
  "bool_word c =
     (case c of NaN \<Rightarrow> True | Txt s \<Rightarrow> List.member true_values s \<or> List.member false_values s
      | _ \<Rightarrow> False)"

definition bool_cell :: "cell \<Rightarrow> cell" where
  "bool_cell c =
     (case c of
        Txt s \<Rightarrow> if List.member true_values s then Bool True
                 else if List.member false_values s then Bool False else c
      | _ \<Rightarrow> c)"

text \<open>The cell at column \<open>k\<close> of a row, once the type of column \<open>k\<close> is inferred.\<close>

definition infer_types :: "cell list list \<Rightarrow> cell list list" where
  "infer_types rws =
     map (\<lambda>r. map (\<lambda>k. if list_all bool_word (map (\<lambda>r'. r' ! k) rws) then bool_cell (r ! k) else r ! k)
                 [0..<length r])
         rws"

definition read_fwf :: "nat list \<Rightarrow> string \<Rightarrow> error + cell list list" where
  "read_fwf widths buf =
     (let recs = fwf_records widths buf in
      if recs = [] then Inl EmptyDataError else Inr (infer_types (map (map na_cell) recs)))"

text \<open>\<^verbatim>\<open>nobs*[14,1,1]\<close>: an empty list when \<open>nobs\<close> is not positive.\<close>

definition obs_widths :: "int \<Rightarrow> nat list" where
  "obs_widths nobs = concat (replicate (nat nobs) [14, 1, 1])"

subsection \<open>Table operations\<close>

text \<open>Row labels \<open>0, 1, \<dots>\<close> of a freshly read table, and \<^verbatim>\<open>reset_index(drop=True)\<close>.\<close>

definition number_rows :: "cell list list \<Rightarrow> (label \<times> cell list) list" where
  "number_rows rs = zip (map Pos [0..<length rs]) rs"

definition reset_index :: "frame \<Rightarrow> frame" where
  "reset_index fr = fr\<lparr>rows := number_rows (map snd (rows fr))\<rparr>"

text \<open>The positions of a column name among the columns.\<close>

definition col_positions :: "string \<Rightarrow> string list \<Rightarrow> nat list" where
  "col_positions name cols = filter (\<lambda>i. cols ! i = name) [0..<length cols]"

text \<open>
  \<^verbatim>\<open>df[name] = values\<close>: an existing column of that name is overwritten in place, a new
  one is appended. The caller checks that there is one value per row.
\<close>

definition assign_col :: "string \<Rightarrow> cell list \<Rightarrow> frame \<Rightarrow> frame" where
  "assign_col name vals fr =
     (if List.member (columns fr) name
      then fr\<lparr>rows := map (\<lambda>((l, r), v). (l, map (\<lambda>(c, x). if c = name then v else x) (zip (columns fr) r)))
                         (zip (rows fr) vals)\<rparr>
      else \<lparr>columns = columns fr @ [name],
            rows = map (\<lambda>((l, r), v). (l, r @ [v])) (zip (rows fr) vals)\<rparr>)"

text \<open>The cells of a row under new column names: a name the row does not have is missing.\<close>

definition reindex_row :: "string list \<Rightarrow> string list \<Rightarrow> cell list \<Rightarrow> cell list" where
  "reindex_row new old r = map (\<lambda>c. case map_of (zip old r) c of None \<Rightarrow> NaN | Some v \<Rightarrow> v) new"

text \<open>The names of a list in the order of their first occurrence.\<close>

fun uniq_acc :: "'a list \<Rightarrow> 'a list \<Rightarrow> 'a list" where
  "uniq_acc seen [] = []"
| "uniq_acc seen (x # xs) =
     (if List.member seen x then uniq_acc seen xs else x # uniq_acc (x # seen) xs)"

definition uniq :: "'a list \<Rightarrow> 'a list" where
  "uniq xs = uniq_acc [] xs"

text \<open>
  \<^verbatim>\<open>pd.concat(frames)\<close>, row-wise: an empty list raises; tables with the same columns
  are stacked; otherwise the columns are the union in order of first occurrence, which
  needs every table's columns distinct, and each row is missing where it has no column.
  Row labels are kept.
\<close>

definition pd_concat :: "frame list \<Rightarrow> error + frame" where
  "pd_concat fs =
     (if fs = [] then Inl ValueError
      else if list_all (\<lambda>f. columns f = columns (hd fs)) fs
      then Inr \<lparr>columns = columns (hd fs), rows = concat (map rows fs)\<rparr>
      else if list_all (\<lambda>f. distinct (columns f)) fs
      then (let cs = uniq (concat (map columns fs)) in
            Inr \<lparr>columns = cs,
                 rows = concat (map (\<lambda>f. map (\<lambda>(l, r). (l, reindex_row cs (columns f) r)) (rows f)) fs)\<rparr>)
      else Inl InvalidIndexError)"

text \<open>\<^verbatim>\<open>df.reindex(names, axis=1)\<close>: the existing column names must be distinct.\<close>

definition reindex_cols :: "string list \<Rightarrow> frame \<Rightarrow> error + frame" where
  "reindex_cols new fr =
     (if distinct (columns fr)
      then Inr \<lparr>columns = new, rows = map (\<lambda>(l, r). (l, reindex_row new (columns fr) r)) (rows fr)\<rparr>
      else Inl ValueError)"

text \<open>
  The order of cells in a sort: missing cells last, time stamps by time, text by
  code point. (The library orders a numeric column by value; the model orders its text,
  which is the same order for the time and text columns \<open>epoch\<close>, \<open>sys\<close> and \<open>prn\<close>.)
\<close>

fun cell_key :: "cell \<Rightarrow> nat \<times> int \<times> string" where
  "cell_key NaN = (1, 0, [])"
| "cell_key (Stamp t) = (0, t, [])"
| "cell_key (Bool b) = (0, of_bool b, [])"
| "cell_key (Txt s) = (0, 0, s)"

text \<open>
  \<^verbatim>\<open>df.sort_values(names)\<close>: every name must be one column; the rows are put in
  ascending order of the cells under these columns, rows with equal keys keeping their
  order.
\<close>

definition sort_values :: "string list \<Rightarrow> frame \<Rightarrow> error + frame" where
  "sort_values names fr =
     (if list_all (\<lambda>k. length (col_positions k (columns fr)) = 1) names
      then Inr (fr\<lparr>rows := sort_key (\<lambda>(l, r). map (\<lambda>k. cell_key (r ! hd (col_positions k (columns fr)))) names)
                               (rows fr)\<rparr>)
      else if list_all (\<lambda>k. col_positions k (columns fr) \<noteq> []) names then Inl ValueError
      else Inl KeyError)"

text \<open>
  \<^verbatim>\<open>df.set_index(keys)\<close> with the library's defaults (\<^verbatim>\<open>drop=True\<close>,
  \<^verbatim>\<open>verify_integrity=False\<close>): every key must be a column, else \<^verbatim>\<open>KeyError\<close>. The
  label of a row becomes the tuple of its cells under the keys, and the key columns leave
  the table. Nothing checks that the labels are distinct.
\<close>

definition set_index :: "string list \<Rightarrow> frame \<Rightarrow> error + frame" where
  "set_index keys fr =
     (if \<not> list_all (\<lambda>k. col_positions k (columns fr) \<noteq> []) keys then Inl KeyError
      else if \<not> list_all (\<lambda>k. length (col_positions k (columns fr)) = 1) keys then Inl ValueError
      else (let kpos = map (\<lambda>k. hd (col_positions k (columns fr))) keys;
                rest = filter (\<lambda>i. \<not> List.member kpos i) [0..<length (columns fr)]
            in Inr \<lparr>columns = map (\<lambda>i. columns fr ! i) rest,
                    rows = map (\<lambda>(l, r). (Key (map (\<lambda>i. r ! i) kpos), map (\<lambda>i. r ! i) rest)) (rows fr)\<rparr>))"

text \<open>
  The \<^verbatim>\<open>set_index\<close> argument of both readers: omitted, one column name, or a list of
  names. \<^verbatim>\<open>if set_index:\<close> is false for \<^verbatim>\<open>None\<close>, the empty string and the empty
  list.
\<close>

datatype index_arg = NoIndex | Col string | Cols "string list"

fun index_keys :: "index_arg \<Rightarrow> string list option" where
  "index_keys NoIndex = None"
| "index_keys (Col s) = (if s = [] then None else Some [s])"
| "index_keys (Cols ks) = (if ks = [] then None else Some ks)"

text \<open>
  The two lines under \<^verbatim>\<open>if set_index:\<close>. \<^verbatim>\<open>df.sort_index()\<close> puts the rows in the
  order of their labels. Which order that is for numeric labels (by value, while a
  numeric cell is a text here), and in which order it leaves rows of equal labels (its
  default sorting routine is not stable), is the library's: the sort is the parameter
  \<open>sort_index\<close> of the readers. What is used of it is stated where it is used: it
  returns the rows it is given, under the same columns.
\<close>

definition rekey :: "(frame \<Rightarrow> frame) \<Rightarrow> index_arg \<Rightarrow> frame \<Rightarrow> error + frame" where
  "rekey sort_index arg fr =
     (case index_keys arg of
        None \<Rightarrow> Inr fr
      | Some keys \<Rightarrow> (case set_index keys fr of Inl e \<Rightarrow> Inl e | Inr fr' \<Rightarrow> Inr (sort_index fr')))"

section \<open>Sequencing of operations that may raise\<close>

definition bind_err :: "error + 'a \<Rightarrow> ('a \<Rightarrow> error + 'b) \<Rightarrow> error + 'b" where
  "bind_err m f = (case m of Inl e \<Rightarrow> Inl e | Inr x \<Rightarrow> f x)"

text \<open>A loop that appends one result per element; the first exception ends it.\<close>

fun collect :: "('a \<Rightarrow> error + 'b) \<Rightarrow> 'a list \<Rightarrow> error + 'b list" where
  "collect f [] = Inr []"
| "collect f (x # xs) =
     (case f x of
        Inl e \<Rightarrow> Inl e
      | Inr y \<Rightarrow> (case collect f xs of Inl e \<Rightarrow> Inl e | Inr ys \<Rightarrow> Inr (y # ys)))"

section \<open>The header\<close>

text \<open>
  Both readers look for the first line containing \<^verbatim>\<open>END OF HEADER\<close>. When no line has
  it, \<^verbatim>\<open>i_end_header\<close> is never assigned and \<^verbatim>\<open>LINES[:i_end_header+1]\<close> raises
  \<^verbatim>\<open>UnboundLocalError\<close>.
\<close>

fun find_header_end :: "nat \<Rightarrow> string list \<Rightarrow> nat option" where
  "find_header_end il [] = None"
| "find_header_end il (l # ls) =
     (if contains ''END OF HEADER'' l then Some il else find_header_end (Suc il) ls)"

definition header_lines :: "string list \<Rightarrow> error + string list" where
  "header_lines LINES =
     (case find_header_end 0 LINES of
        None \<Rightarrow> Inl UnboundLocalError
      | Some i_end_header \<Rightarrow> Inr (take (i_end_header + 1) LINES))"

text \<open>\<^verbatim>\<open>(e, e+"_LLI", e+"_SSI")\<close>\<close>

definition obs_triple :: "string \<Rightarrow> string list" where
  "obs_triple e = [e, e @ ''_LLI'', e @ ''_SSI'']"

text \<open>
  The observables of a RINEX 2 header: \<^verbatim>\<open>ObsAllList\<close> (the sorted column names) and
  \<^verbatim>\<open>nobs\<close>.
\<close>

definition rinex2_header :: "string list \<Rightarrow> error + (string list \<times> int)" where
  "rinex2_header LINES_header =
     (let Lines_obs = map (take 60) (filter (contains ''# / TYPES OF OBSERV'') LINES_header);
          ObsAllList_raw = py_split (py_join '' '' Lines_obs)
      in case ObsAllList_raw of
           [] \<Rightarrow> Inl IndexError
         | n # codes \<Rightarrow>
             (case py_int n of
                None \<Rightarrow> Inl ValueError
              | Some nobs \<Rightarrow> Inr (sort (concat (map obs_triple codes)), nobs)))"

text \<open>
  The loop of \<^verbatim>\<open>read_rinex3_obs\<close> that joins continuation lines. It iterates over
  \<^verbatim>\<open>Lines_sys\<close> by position while it removes elements from it: \<open>il\<close> is the position
  of the iterator, and the loop ends when \<open>il\<close> reaches the current length.
  \<^verbatim>\<open>Lines_sys[il-1]\<close> at \<open>il = 0\<close> is the last element. \<^verbatim>\<open>Lines_sys.remove(l)\<close>
  removes the first element equal to \<open>l\<close> and raises \<^verbatim>\<open>ValueError\<close> when there is
  none, which happens when the only line starts with a blank and was joined to itself.
\<close>

function merge_sys :: "nat \<Rightarrow> string list \<Rightarrow> error + string list" where
  "merge_sys il Lines_sys =
     (if il < length Lines_sys then
        (if Lines_sys ! il = [] then Inl IndexError
         else if hd (Lines_sys ! il) = CHR '' '' then
           (let joined = Lines_sys[(if il = 0 then length Lines_sys - 1 else il - 1) :=
                   Lines_sys ! (if il = 0 then length Lines_sys - 1 else il - 1) @ Lines_sys ! il]
            in if List.member joined (Lines_sys ! il)
               then merge_sys (Suc il) (remove1 (Lines_sys ! il) joined)
               else Inl ValueError)
         else merge_sys (Suc il) Lines_sys)
      else Inr Lines_sys)"
  by pat_completeness auto
termination
  by (relation "measure (\<lambda>(il, xs). length xs - il)") (auto simp: length_remove1)

text \<open>A Python dictionary with string keys: assignment keeps the place of an existing key.\<close>

fun dict_set :: "string \<Rightarrow> 'v \<Rightarrow> (string \<times> 'v) list \<Rightarrow> (string \<times> 'v) list" where
  "dict_set k v [] = [(k, v)]"
| "dict_set k v (p # ps) = (if fst p = k then (k, v) # ps else p # dict_set k v ps)"

text \<open>\<^verbatim>\<open>dict_sys_use[sys]\<close>: \<open>prn\<close> and the triple of every observable, in declaration order.\<close>

definition sys_columns :: "string list \<Rightarrow> string list" where
  "sys_columns codes = ''prn'' # concat (map obs_triple codes)"

text \<open>The loop that fills \<^verbatim>\<open>dict_sys_use\<close> and \<^verbatim>\<open>dict_sys_nobs\<close>.\<close>

fun rinex3_dicts :: "string list \<Rightarrow> (string \<times> string list) list \<Rightarrow> (string \<times> int) list
    \<Rightarrow> error + ((string \<times> string list) list \<times> (string \<times> int) list)" where
  "rinex3_dicts [] dict_sys_use dict_sys_nobs = Inr (dict_sys_use, dict_sys_nobs)"
| "rinex3_dicts (l # ls) dict_sys_use dict_sys_nobs =
     (case py_split l of
        [] \<Rightarrow> Inl IndexError
      | [s] \<Rightarrow> Inl IndexError
      | s # n # codes \<Rightarrow>
          (case py_int n of
             None \<Rightarrow> Inl ValueError
           | Some k \<Rightarrow> rinex3_dicts ls (dict_set s (sys_columns codes) dict_sys_use)
                        (dict_set s k dict_sys_nobs)))"

text \<open>\<^verbatim>\<open>max(dict_sys_nobs.values())\<close>\<close>

definition max_values :: "(string \<times> int) list \<Rightarrow> error + int" where
  "max_values d = (case map snd d of [] \<Rightarrow> Inl ValueError | v # vs \<Rightarrow> Inr (foldl max v vs))"

text \<open>The systems of a RINEX 3 header: \<^verbatim>\<open>dict_sys_use\<close> and \<^verbatim>\<open>nobs_max\<close>.\<close>

definition rinex3_header :: "string list \<Rightarrow> error + ((string \<times> string list) list \<times> int)" where
  "rinex3_header LINES_header =
     bind_err (merge_sys 0 (map (take 60) (filter (contains ''SYS / # / OBS TYPES'') LINES_header)))
       (\<lambda>Lines_sys. bind_err (rinex3_dicts Lines_sys [] [])
       (\<lambda>(dict_sys_use, dict_sys_nobs). bind_err (max_values dict_sys_nobs)
       (\<lambda>nobs_max. Inr (dict_sys_use, nobs_max))))"

section \<open>The epoch blocks\<close>

text \<open>
  \<^verbatim>\<open>EPOCHS\<close> comes from \<^verbatim>\<open>operational.rinex_read_epoch\<close>, outside the module: a
  parameter of both readers, the list of (time stamp, line number of the epoch line).
  The block of epoch \<open>iepoc\<close> ends where the next one starts; the last one has no end.
\<close>

definition epoch_end :: "(int \<times> nat) list \<Rightarrow> nat \<Rightarrow> nat option" where
  "epoch_end EPOCHS iepoc =
     (if iepoc = length EPOCHS - 1 then None else Some (snd (EPOCHS ! (iepoc + 1))))"

text \<open>\<^verbatim>\<open>DFepoch["sys"] = DFepoch["prn"].str[0]\<close>\<close>

definition assign_sys :: "frame \<Rightarrow> error + frame" where
  "assign_sys fr =
     (case col_positions ''prn'' (columns fr) of
        [] \<Rightarrow> Inl KeyError
      | [i] \<Rightarrow> Inr (assign_col ''sys'' (map (\<lambda>(l, r). str0 (r ! i)) (rows fr)) fr)
      | _ \<Rightarrow> Inl AttributeError)"

text \<open>
  \<^verbatim>\<open>Lines_obs_merg\<close>: the observation lines of the block without their newlines,
  merged \<open>nlines_for_obs\<close> by \<open>nlines_for_obs\<close> into one record per satellite.
\<close>

definition obs_records :: "int \<Rightarrow> int \<Rightarrow> string list \<Rightarrow> nat \<Rightarrow> nat option \<Rightarrow> string list" where
  "obs_records nobs ns Lines_epoc iline_sats_end iline_end =
     (let Lines_obs = map (filter (\<lambda>c. c \<noteq> newline))
                        (slice_to Lines_epoc (iline_sats_end + 1) iline_end);
          nlines_for_obs = nat (ceil_div nobs 5)
      in map (\<lambda>n. concat (slice Lines_obs (nlines_for_obs * n) (nlines_for_obs * n + nlines_for_obs)))
           [0..<nat ns])"

text \<open>
  The body of the epoch loop of \<^verbatim>\<open>read_rinex2_obs\<close>. \<^verbatim>\<open>_sats_find\<close> returning
  nothing makes the unpacking of its result raise \<^verbatim>\<open>TypeError\<close>. Assigning the column
  names or the \<open>prn\<close> column checks the length. (When \<open>nobs\<close> is not positive the
  reader has no width and raises whatever the records are.)
\<close>

definition rinex2_epoch :: "(string \<Rightarrow> error + int) \<Rightarrow> string list \<Rightarrow> int \<Rightarrow> string list
    \<Rightarrow> (int \<times> nat) list \<Rightarrow> nat \<Rightarrow> error + frame" where
  "rinex2_epoch rd ObsAllList nobs LINES EPOCHS iepoc =
     (let epoch = fst (EPOCHS ! iepoc);
          iline_start = snd (EPOCHS ! iepoc);
          iline_end = epoch_end EPOCHS iepoc;
          Lines_epoc = slice_to LINES iline_start iline_end
      in case sats_find rd Lines_epoc of
           Inl e \<Rightarrow> Inl e
         | Inr None \<Rightarrow> Inl TypeError
         | Inr (Some (ep, ns, lc, Sats_split, iline_sats_end)) \<Rightarrow>
             (let Lines_obs_merg = obs_records nobs ns Lines_epoc iline_sats_end iline_end
              in bind_err (read_fwf (obs_widths nobs) (py_join [newline] Lines_obs_merg))
                   (\<lambda>raw.
                      if length ObsAllList \<noteq> length (obs_widths nobs) then Inl ValueError
                      else if length Sats_split \<noteq> length raw then Inl ValueError
                      else bind_err
                             (assign_sys (assign_col ''prn'' (map Txt Sats_split)
                                \<lparr>columns = ObsAllList, rows = number_rows raw\<rparr>))
                             (\<lambda>fr. Inr (assign_col ''epoch'' (replicate (length raw) (Stamp epoch)) fr)))))"

text \<open>
  \<^verbatim>\<open>DFepoch[DFepoch[0].str[0] == sys].iloc[:,:len(dict_sys_use[sys])]\<close> and the
  assignment of the system's column names. The \<^verbatim>\<open>.str\<close> accessor raises unless the
  first column is a text column; whether the library's type inference keeps a column as
  text is the parameter \<open>text_column\<close>. The names must be as many as the columns kept.
\<close>

definition select_sys :: "(cell list \<Rightarrow> bool) \<Rightarrow> cell list list \<Rightarrow> nat \<Rightarrow> string \<times> string list
    \<Rightarrow> error + frame" where
  "select_sys text_column raw ncols entry =
     (if \<not> text_column (map (\<lambda>r. r ! 0) raw) then Inl AttributeError
      else if length (snd entry) \<le> ncols
      then Inr \<lparr>columns = snd entry,
                rows = map (\<lambda>(l, r). (l, take (length (snd entry)) r))
                         (filter (\<lambda>(l, r). str0 (r ! 0) = Txt (fst entry)) (number_rows raw))\<rparr>
      else Inl ValueError)"

text \<open>
  \<^verbatim>\<open>pd.concat([col_epoch, col_sys, DFepoch_ok], axis=1)\<close>. The three parts are aligned
  on their row labels. \<^verbatim>\<open>col_epoch\<close> is a new series labelled \<open>0 \<dots> n-1\<close>, where
  \<open>n\<close> is the number of rows of \<^verbatim>\<open>DFepoch_ok\<close>; the rows of \<^verbatim>\<open>DFepoch_ok\<close> keep the
  labels they had in the table read from the block. The result has the labels of
  \<^verbatim>\<open>col_epoch\<close> in order, then the other labels of \<^verbatim>\<open>DFepoch_ok\<close>; a part that has
  no row for a label is missing there.
\<close>

definition align_concat :: "int \<Rightarrow> nat \<Rightarrow> frame \<Rightarrow> frame" where
  "align_concat epoch iprn ok =
     (let base = map Pos [0..<length (rows ok)];
          idx = base @ filter (\<lambda>l. \<not> List.member base l) (map fst (rows ok))
      in \<lparr>columns = ''epoch'' # ''sys'' # columns ok,
          rows = map (\<lambda>l. (l, (if List.member base l then Stamp epoch else NaN) #
                             (case map_of (rows ok) l of
                                None \<Rightarrow> replicate (Suc (length (columns ok))) NaN
                              | Some r \<Rightarrow> str0 (r ! iprn) # r)))
                   idx\<rparr>)"

text \<open>\<^verbatim>\<open>[3] + nobs_max*[14,1,1]\<close>\<close>

definition sat_widths :: "int \<Rightarrow> nat list" where
  "sat_widths nobs_max = 3 # obs_widths nobs_max"

text \<open>The body of the epoch loop of \<^verbatim>\<open>read_rinex3_obs\<close>.\<close>

definition rinex3_epoch :: "(cell list \<Rightarrow> bool) \<Rightarrow> (string \<times> string list) list \<Rightarrow> int
    \<Rightarrow> string list \<Rightarrow> (int \<times> nat) list \<Rightarrow> nat \<Rightarrow> error + frame" where
  "rinex3_epoch text_column dict_sys_use nobs_max LINES EPOCHS iepoc =
     (let epoch = fst (EPOCHS ! iepoc);
          iline_start = snd (EPOCHS ! iepoc) + 1;
          iline_end = epoch_end EPOCHS iepoc;
          Lines_epoc = slice_to LINES iline_start iline_end
      in bind_err (read_fwf (sat_widths nobs_max) (concat Lines_epoc))
           (\<lambda>raw. bind_err (collect (select_sys text_column raw (length (sat_widths nobs_max))) dict_sys_use)
           (\<lambda>DFepoch_ok_stk. bind_err (pd_concat DFepoch_ok_stk)
           (\<lambda>DFepoch_ok.
              case col_positions ''prn'' (columns DFepoch_ok) of
                [] \<Rightarrow> Inl KeyError
              | [i] \<Rightarrow> Inr (align_concat epoch i DFepoch_ok)
              | _ \<Rightarrow> Inl AttributeError))))"

section \<open>The readers\<close>

text \<open>
  \<^verbatim>\<open>read_rinex2_obs(rnx_in, set_index)\<close>. \<open>LINES\<close> is \<^verbatim>\<open>FILE.readlines()\<close>;
  \<open>rd\<close> and \<open>EPOCHS\<close> stand for the two functions of \<^verbatim>\<open>geodezyx.operational\<close>,
  and \<open>sort_index\<close> for the sort of the table library.
\<close>

definition read_rinex2_obs :: "(string \<Rightarrow> error + int) \<Rightarrow> (frame \<Rightarrow> frame) \<Rightarrow> (int \<times> nat) list
    \<Rightarrow> string list \<Rightarrow> index_arg \<Rightarrow> error + frame" where
  "read_rinex2_obs rd sort_index EPOCHS LINES set_index_arg =
     bind_err (header_lines LINES)
       (\<lambda>LINES_header. bind_err (rinex2_header LINES_header)
       (\<lambda>(ObsAllList, nobs).
          bind_err (collect (rinex2_epoch rd ObsAllList nobs LINES EPOCHS) [0..<length EPOCHS])
       (\<lambda>DFall_stk. bind_err (pd_concat DFall_stk)
       (\<lambda>DFrnxobs. bind_err (reindex_cols (''epoch'' # ''sys'' # ''prn'' # ObsAllList) DFrnxobs)
       (\<lambda>DFrnxobs. bind_err (sort_values [''epoch'', ''prn''] DFrnxobs)
       (\<lambda>DFrnxobs. rekey sort_index set_index_arg (reset_index DFrnxobs)))))))"

text \<open>\<^verbatim>\<open>read_rinex3_obs(rnx_in, set_index)\<close>\<close>

definition read_rinex3_obs :: "(cell list \<Rightarrow> bool) \<Rightarrow> (frame \<Rightarrow> frame) \<Rightarrow> (int \<times> nat) list
    \<Rightarrow> string list \<Rightarrow> index_arg \<Rightarrow> error + frame" where
  "read_rinex3_obs text_column sort_index EPOCHS LINES set_index_arg =
     bind_err (header_lines LINES)
       (\<lambda>LINES_header. bind_err (rinex3_header LINES_header)
       (\<lambda>(dict_sys_use, nobs_max).
          bind_err (collect (rinex3_epoch text_column dict_sys_use nobs_max LINES EPOCHS) [0..<length EPOCHS])
       (\<lambda>DFall_stk. bind_err (pd_concat DFall_stk)
       (\<lambda>DFrnxobs. rekey sort_index set_index_arg (reset_index DFrnxobs)))))"

section \<open>The satellites of an epoch\<close>

text \<open>
  The number of satellites that the EPOCH/SAT record of epoch \<open>iepoc\<close> of a RINEX 2 file
  declares, as \<^verbatim>\<open>_sats_find\<close> reads it from the block of that epoch.
\<close>

definition rinex2_nsat :: "(string \<Rightarrow> error + int) \<Rightarrow> string list \<Rightarrow> (int \<times> nat) list \<Rightarrow> nat \<Rightarrow> nat" where
  "rinex2_nsat rd LINES EPOCHS iepoc =
     (case sats_find rd (slice_to LINES (snd (EPOCHS ! iepoc)) (epoch_end EPOCHS iepoc)) of
        Inr (Some (ep, ns, lc, sats, il)) \<Rightarrow> nat ns
      | _ \<Rightarrow> 0)"

text \<open>
  The satellites and the records of epoch \<open>iepoc\<close> of a RINEX 2 file: \<^verbatim>\<open>Sats_split\<close>
  and \<^verbatim>\<open>Lines_obs_merg\<close> of the epoch loop, one record per declared satellite.
\<close>

definition rinex2_sats :: "(string \<Rightarrow> error + int) \<Rightarrow> string list \<Rightarrow> (int \<times> nat) list \<Rightarrow> nat
    \<Rightarrow> string list" where
  "rinex2_sats rd LINES EPOCHS iepoc =
     (case sats_find rd (slice_to LINES (snd (EPOCHS ! iepoc)) (epoch_end EPOCHS iepoc)) of
        Inr (Some (ep, ns, lc, sats, il)) \<Rightarrow> sats
      | _ \<Rightarrow> [])"

definition rinex2_records :: "(string \<Rightarrow> error + int) \<Rightarrow> int \<Rightarrow> string list \<Rightarrow> (int \<times> nat) list \<Rightarrow> nat
    \<Rightarrow> string list" where
  "rinex2_records rd nobs LINES EPOCHS iepoc =
     (let Lines_epoc = slice_to LINES (snd (EPOCHS ! iepoc)) (epoch_end EPOCHS iepoc)
      in case sats_find rd Lines_epoc of
           Inr (Some (ep, ns, lc, sats, il)) \<Rightarrow> obs_records nobs ns Lines_epoc il (epoch_end EPOCHS iepoc)
         | _ \<Rightarrow> [])"

text \<open>
  The characters of field \<open>k\<close> of a record, for the widths of the fixed-width reader.
  What the reader makes of a field is decided by its stripped text: a missing cell when
  the text is empty or a marker of a missing value; otherwise the text itself, or its
  truth value when the column is inferred as one of truth values.
\<close>

definition field_chars :: "nat list \<Rightarrow> string \<Rightarrow> nat \<Rightarrow> string" where
  "field_chars widths line k = take (widths ! k) (drop (sum_list (take k widths)) line)"

definition decoded :: "string \<Rightarrow> cell \<Rightarrow> bool" where
  "decoded fld c = (c = na_cell fld \<or> c = bool_cell (na_cell fld))"

text \<open>
  The lines of the block of epoch \<open>iepoc\<close> of a RINEX 3 file, after its epoch line, as
  the fixed-width reader cuts the joined block; and the cell read from the first three
  characters of a line, the satellite identifier.
\<close>

definition sat_lines :: "string list \<Rightarrow> (int \<times> nat) list \<Rightarrow> nat \<Rightarrow> string list" where
  "sat_lines LINES EPOCHS iepoc =
     buf_lines [] (concat (slice_to LINES (snd (EPOCHS ! iepoc) + 1) (epoch_end EPOCHS iepoc)))"

definition prn_cell :: "string \<Rightarrow> cell" where
  "prn_cell l = na_cell (fwf_strip (take 3 l))"

text \<open>
  A line is the record of a satellite of a declared system when its identifier starts with
  the code of a system of the catalog (a character that is not white space). In a file
  of declared satellites the header is read without error and every line of every epoch
  block is such a record.
\<close>

definition declared_line :: "string list \<Rightarrow> string \<Rightarrow> bool" where
  "declared_line keys l =
     (case str0 (prn_cell l) of Txt s \<Rightarrow> List.member keys s \<and> \<not> is_space (hd s) | _ \<Rightarrow> False)"

definition declared_file :: "string list \<Rightarrow> (int \<times> nat) list \<Rightarrow> bool" where
  "declared_file LINES EPOCHS =
     (case header_lines LINES of
        Inl e \<Rightarrow> False
      | Inr LINES_header \<Rightarrow>
          (case rinex3_header LINES_header of
             Inl e \<Rightarrow> False
           | Inr (dict_sys_use, nobs_max) \<Rightarrow>
               list_all (\<lambda>iepoc. list_all (declared_line (map fst dict_sys_use)) (sat_lines LINES EPOCHS iepoc))
                 [0..<length EPOCHS]))"

text \<open>
  The cell of a row of a returned table under a name: the cell of the index under that
  name when the table was re-keyed and the name is one of the keys, the cell of the
  column of that name otherwise. \<open>index_names\<close> gives the names of the index of the table
  that a reader returns for a \<^verbatim>\<open>set_index\<close> argument.
\<close>

definition index_names :: "index_arg \<Rightarrow> string list" where
  "index_names arg = (case index_keys arg of None \<Rightarrow> [] | Some keys \<Rightarrow> keys)"

definition row_field :: "string list \<Rightarrow> frame \<Rightarrow> label \<times> cell list \<Rightarrow> string \<Rightarrow> cell option" where
  "row_field names fr row c =
     map_of ((case fst row of Key cs \<Rightarrow> zip names cs | Pos n \<Rightarrow> []) @ zip (columns fr) (snd row)) c"

section \<open>Example files\<close>

text \<open>
  A RINEX 2 file declaring the observables \<open>L1\<close> and \<open>C1\<close>, with one epoch of two
  satellites \<open>G02\<close> and \<open>G01\<close>. The epoch line is line 3.
\<close>

definition ex2_lines :: "string list" where
  "ex2_lines =
    [''     2.11           OBSERVATION DATA    G (GPS)             RINEX VERSION / TYPE'' @ [newline],
     ''     2    L1    C1                                          # / TYPES OF OBSERV'' @ [newline],
     ''                                                            END OF HEADER'' @ [newline],
     '' 10  1  1  0  0  0.0000000  0  2G02G01'' @ [newline],
     ''         1.00017         2.000'' @ [newline],
     ''         3.000           4.000 8'' @ [newline]]"

definition ex2_epochs :: "(int \<times> nat) list" where
  "ex2_epochs = [(100, 3)]"

text \<open>The time stamp of an epoch line, for the examples: the external parser returns one.\<close>

definition ex_rd :: "string \<Rightarrow> error + int" where
  "ex_rd l = Inr 100"

text \<open>
  A RINEX 3 file declaring \<open>G\<close> with \<open>C1C\<close>, \<open>L1C\<close> and then \<open>R\<close> with \<open>C1C\<close>, with
  one epoch whose lines are \<open>R01\<close> then \<open>G01\<close>. The epoch line is line 4.
\<close>

definition ex3_lines :: "string list" where
  "ex3_lines =
    [''     3.04           OBSERVATION DATA    M                   RINEX VERSION / TYPE'' @ [newline],
     ''G    2 C1C L1C                                              SYS / # / OBS TYPES'' @ [newline],
     ''R    1 C1C                                                  SYS / # / OBS TYPES'' @ [newline],
     ''                                                            END OF HEADER'' @ [newline],
     ''> 2020 01 01 00 00  0.0000000  0  2'' @ [newline],
     ''R01         5.000'' @ [newline],
     ''G01         1.00017         2.000'' @ [newline]]"

definition ex3_epochs :: "(int \<times> nat) list" where
  "ex3_epochs = [(100, 4)]"

text \<open>
  A RINEX 3 file whose header declares \<open>G\<close> only, with one epoch whose lines are \<open>G01\<close>
  and then \<open>R01\<close>, a satellite of a system that the header does not declare.
\<close>

definition ex3_undeclared_lines :: "string list" where
  "ex3_undeclared_lines =
    [''     3.04           OBSERVATION DATA    M                   RINEX VERSION / TYPE'' @ [newline],
     ''G    2 C1C L1C                                              SYS / # / OBS TYPES'' @ [newline],
     ''                                                            END OF HEADER'' @ [newline],
     ''> 2020 01 01 00 00  0.0000000  0  2'' @ [newline],
     ''G01         1.00017         2.000'' @ [newline],
     ''R01         5.000'' @ [newline]]"

definition ex3_undeclared_epochs :: "(int \<times> nat) list" where
  "ex3_undeclared_epochs = [(100, 3)]"

text \<open>
  The header of \<open>ex3_lines\<close>, and one satellite whose first observation field holds
  \<open>abc\<close>.
\<close>

definition ex3_text_lines :: "string list" where
  "ex3_text_lines =
    [''     3.04           OBSERVATION DATA    M                   RINEX VERSION / TYPE'' @ [newline],
     ''G    2 C1C L1C                                              SYS / # / OBS TYPES'' @ [newline],
     ''R    1 C1C                                                  SYS / # / OBS TYPES'' @ [newline],
     ''                                                            END OF HEADER'' @ [newline],
     ''> 2020 01 01 00 00  0.0000000  0  2'' @ [newline],
     ''G01           abc           2.000'' @ [newline]]"

text \<open>
  A column is certainly a text column when one of its cells is a satellite identifier, a
  capital letter and two digits: the instance of \<open>text_column\<close> for the examples.
\<close>

definition is_prn :: "string \<Rightarrow> bool" where
  "is_prn s = (length s = 3 \<and> CHR ''A'' \<le> s ! 0 \<and> s ! 0 \<le> CHR ''Z'' \<and> is_digit (s ! 1) \<and> is_digit (s ! 2))"

definition has_prn_cell :: "cell list \<Rightarrow> bool" where
  "has_prn_cell col = list_ex (\<lambda>c. case c of Txt s \<Rightarrow> is_prn s | _ \<Rightarrow> False) col"

text \<open>
  A RINEX 3 header in which system \<open>G\<close> declares 28 observables: 13 on its line and 15
  on two continuation lines.
\<close>

definition ex3_long_header :: "string list" where
  "ex3_long_header =
    [''     3.04           OBSERVATION DATA    M                   RINEX VERSION / TYPE'' @ [newline],
     ''G   28 C1C L1C D1C S1C C1W L1W D1W S1W C2W L2W D2W S2W C2L  SYS / # / OBS TYPES'' @ [newline],
     ''       L2L D2L S2L C5Q L5Q D5Q S5Q C1L L1L D1L S1L C2S L2S  SYS / # / OBS TYPES'' @ [newline],
     ''       D2S S2S                                              SYS / # / OBS TYPES'' @ [newline],
     ''                                                            END OF HEADER'' @ [newline]]"

text \<open>
  Two RINEX 2 epoch blocks of 13 satellites: twelve identifiers on the epoch line, in
  columns 33 to 68, and \<open>G13\<close> on a continuation line. The epoch line of the second
  block also carries the receiver clock offset, which the format puts in columns 69 to
  80 of that line.
\<close>

definition ex_epoch13 :: "string list" where
  "ex_epoch13 =
    ['' 10  1  1  0  0  0.0000000  0 13G01G02G03G04G05G06G07G08G09G10G11G12'' @ [newline],
     ''                                G13'' @ [newline],
     ''  23619095.450'' @ [newline]]"

definition ex_epoch13_clock :: "string list" where
  "ex_epoch13_clock =
    ['' 10  1  1  0  0  0.0000000  0 13G01G02G03G04G05G06G07G08G09G10G11G12 -.123456789'' @ [newline],
     ''                                G13'' @ [newline],
     ''  23619095.450'' @ [newline]]"

text \<open>A file with no end of header.\<close>

definition ex_no_end :: "string list" where
  "ex_no_end = [''     2.11           OBSERVATION DATA    G (GPS)             RINEX VERSION / TYPE'' @ [newline]]"

text \<open>
  A sort of the index for the examples: the rows in ascending order of their labels, rows
  of equal labels in the order they had. The labels of the examples are times and texts,
  and where an example has two rows of equal labels they are the only rows, so that the
  table is in order already and the library leaves it as it is.
\<close>

fun label_key :: "label \<Rightarrow> (nat \<times> int \<times> string) list" where
  "label_key (Pos n) = [(0, int n, [])]"
| "label_key (Key cs) = map cell_key cs"

definition stable_sort_index :: "frame \<Rightarrow> frame" where
  "stable_sort_index fr = fr\<lparr>rows := sort_key (\<lambda>(l, r). label_key l) (rows fr)\<rparr>"

text \<open>The tables that the readers return for the two example files.\<close>

definition ex2_table :: frame where
  "ex2_table =
     \<lparr>columns = [''epoch'', ''sys'', ''prn'', ''C1'', ''C1_LLI'', ''C1_SSI'', ''L1'', ''L1_LLI'', ''L1_SSI''],
      rows = [(Pos 0, [Stamp 100, Txt ''G'', Txt ''G01'', Txt ''3.000'', NaN, NaN, Txt ''4.000'', NaN, Txt ''8'']),
              (Pos 1, [Stamp 100, Txt ''G'', Txt ''G02'', Txt ''1.000'', Txt ''1'', Txt ''7'', Txt ''2.000'', NaN, NaN])]\<rparr>"

definition ex3_table :: frame where
  "ex3_table =
     \<lparr>columns = [''epoch'', ''sys'', ''prn'', ''C1C'', ''C1C_LLI'', ''C1C_SSI'', ''L1C'', ''L1C_LLI'', ''L1C_SSI''],
      rows = [(Pos 0, [Stamp 100, Txt ''R'', Txt ''R01'', Txt ''5.000'', NaN, NaN, NaN, NaN, NaN]),
              (Pos 1, [Stamp 100, Txt ''G'', Txt ''G01'', Txt ''1.000'', Txt ''1'', Txt ''7'', Txt ''2.000'', NaN, NaN])]\<rparr>"

section \<open>The satellite list of an epoch of 13 satellites\<close>

text \<open>
  C9. Both blocks declare 13 satellites, and \<^verbatim>\<open>_sats_find\<close> reads two lines of each
  and returns 1, the index of the continuation line. For the first block it returns the
  13 identifiers. For the second, the text it takes from column 32 of the epoch line runs
  to the end of the line and so includes the clock offset: the 13th token is cut from
  the clock offset, and \<open>G13\<close> is not in the list.
\<close>

theorem sats_find_13_clock_offset:
  "sats_find ex_rd ex_epoch13 =
     Inr (Some (100, 13, ''G01G02G03G04G05G06G07G08G09G10G11G12G13'',
       [''G01'', ''G02'', ''G03'', ''G04'', ''G05'', ''G06'', ''G07'', ''G08'', ''G09'', ''G10'',
        ''G11'', ''G12'', ''G13''], 1))
   \<and> slice (ex_epoch13_clock ! 0) 68 80 = '' -.123456789''
   \<and> sats_find ex_rd ex_epoch13_clock =
     Inr (Some (100, 13, ''G01G02G03G04G05G06G07G08G09G10G11G12 -.123456789G13'',
       [''G01'', ''G02'', ''G03'', ''G04'', ''G05'', ''G06'', ''G07'', ''G08'', ''G09'', ''G10'',
        ''G11'', ''G12'', '' -.''], 1))"
  by code_simp

section \<open>A file without an end of header\<close>

lemma find_header_end_None:
  "\<not> list_ex (contains ''END OF HEADER'') LINES \<Longrightarrow> find_header_end il LINES = None"
  by (induction LINES arbitrary: il) auto

text \<open>
  C6. When no line of the file contains \<^verbatim>\<open>END OF HEADER\<close>, both readers raise
  (\<^verbatim>\<open>UnboundLocalError\<close>, from the slice that reads the unassigned \<^verbatim>\<open>i_end_header\<close>) and
  return no table, whatever the epochs and the \<^verbatim>\<open>set_index\<close> argument.
\<close>

theorem no_end_of_header:
  assumes "\<not> list_ex (contains ''END OF HEADER'') LINES"
  shows "read_rinex2_obs rd sort_index EPOCHS LINES set_index_arg = Inl UnboundLocalError
    \<and> read_rinex3_obs text_column sort_index EPOCHS LINES set_index_arg = Inl UnboundLocalError"
  using find_header_end_None [OF assms, of 0]
  by (simp add: read_rinex2_obs_def read_rinex3_obs_def header_lines_def bind_err_def)

theorem no_end_of_header_witness:
  "\<not> list_ex (contains ''END OF HEADER'') ex_no_end
    \<and> read_rinex2_obs ex_rd stable_sort_index ex2_epochs ex_no_end NoIndex = Inl UnboundLocalError
    \<and> read_rinex3_obs has_prn_cell stable_sort_index ex3_epochs ex_no_end NoIndex = Inl UnboundLocalError"
proof -
  have h: "\<not> list_ex (contains ''END OF HEADER'') ex_no_end" by code_simp
  from no_end_of_header [OF h] h show ?thesis by simp
qed

section \<open>Continuation lines of a RINEX 3 header\<close>

text \<open>
  C3. In the header \<open>ex3_long_header\<close> the system \<open>G\<close> has two continuation lines. The
  loop joins the first to the line of \<open>G\<close> and steps over the second, which stays an
  entry of its own; its second token \<open>S2S\<close> is then read as the number of observables
  of a system named \<open>D2S\<close>, and the reader raises \<^verbatim>\<open>ValueError\<close>: the observables of
  the second continuation line never reach the catalog of \<open>G\<close>.
\<close>

theorem two_continuation_lines_rejected:
  "merge_sys 0 (map (take 60) (filter (contains ''SYS / # / OBS TYPES'') ex3_long_header)) =
     Inr [take 60 (ex3_long_header ! 1) @ take 60 (ex3_long_header ! 2), take 60 (ex3_long_header ! 3)]
   \<and> py_split (take 60 (ex3_long_header ! 3)) = [''D2S'', ''S2S'']
   \<and> read_rinex3_obs text_column sort_index EPOCHS ex3_long_header set_index_arg = Inl ValueError"
proof -
  have 1: "merge_sys 0 (map (take 60) (filter (contains ''SYS / # / OBS TYPES'') ex3_long_header)) =
     Inr [take 60 (ex3_long_header ! 1) @ take 60 (ex3_long_header ! 2), take 60 (ex3_long_header ! 3)]"
    by code_simp
  have 2: "py_split (take 60 (ex3_long_header ! 3)) = [''D2S'', ''S2S'']" by code_simp
  have 3: "header_lines ex3_long_header = Inr ex3_long_header" by code_simp
  have 4: "rinex3_header ex3_long_header = Inl ValueError" by code_simp
  have "read_rinex3_obs text_column sort_index EPOCHS ex3_long_header set_index_arg = Inl ValueError"
    by (simp add: read_rinex3_obs_def bind_err_def 3 4)
  with 1 2 show ?thesis by simp
qed

section \<open>The column labels of a RINEX 2 table\<close>

text \<open>
  C1. The file \<open>ex2_lines\<close> declares \<open>L1\<close> then \<open>C1\<close>. The record of \<open>G02\<close> holds
  \<open>1.000\<close> (flags 1 and 7) in its first field, the field of \<open>L1\<close>, and \<open>2.000\<close> in its
  second, the field of \<open>C1\<close>; the record of \<open>G01\<close> holds \<open>3.000\<close> and \<open>4.000\<close> (signal
  strength 8). The columns of the table are the sorted names, and the sorted names label
  the fields by position: the column \<open>C1\<close> holds the values read from the fields of
  \<open>L1\<close>, and the column \<open>L1\<close> those of \<open>C1\<close>.
\<close>

theorem rinex2_labels_by_sorted_position:
  "read_rinex2_obs ex_rd stable_sort_index ex2_epochs ex2_lines NoIndex =
     Inr \<lparr>columns = [''epoch'', ''sys'', ''prn'', ''C1'', ''C1_LLI'', ''C1_SSI'', ''L1'', ''L1_LLI'', ''L1_SSI''],
          rows = [(Pos 0, [Stamp 100, Txt ''G'', Txt ''G01'', Txt ''3.000'', NaN, NaN, Txt ''4.000'', NaN, Txt ''8'']),
                  (Pos 1, [Stamp 100, Txt ''G'', Txt ''G02'', Txt ''1.000'', Txt ''1'', Txt ''7'', Txt ''2.000'', NaN, NaN])]\<rparr>"
  by code_simp

section \<open>Re-keying the table\<close>

lemma ex2_eval: "read_rinex2_obs ex_rd stable_sort_index ex2_epochs ex2_lines NoIndex = Inr ex2_table"
  by code_simp

lemma ex3_eval: "read_rinex3_obs has_prn_cell stable_sort_index ex3_epochs ex3_lines NoIndex = Inr ex3_table"
  by code_simp

lemma rekey_NoIndex: "rekey sort_index NoIndex fr = Inr fr"
  by (simp add: rekey_def)

lemma read_rinex2_obs_rekey:
  "read_rinex2_obs rd sort_index E L arg = bind_err (read_rinex2_obs rd sort_index E L NoIndex) (rekey sort_index arg)"
  by (simp add: read_rinex2_obs_def bind_err_def rekey_NoIndex split: sum.splits prod.splits)

lemma read_rinex3_obs_rekey:
  "read_rinex3_obs tc sort_index E L arg = bind_err (read_rinex3_obs tc sort_index E L NoIndex) (rekey sort_index arg)"
  by (simp add: read_rinex3_obs_def bind_err_def rekey_NoIndex split: sum.splits prod.splits)


lemma stable_sort_index_rows:
  "columns (stable_sort_index fr) = columns fr \<and> mset (rows (stable_sort_index fr)) = mset (rows fr)"
  by (simp add: stable_sort_index_def)





section \<open>The fixed-width reader\<close>

lemma fwf_fields_length: "length (fwf_fields ws line) = length ws"
  by (induction ws arbitrary: line) auto

lemma length_infer_types [simp]: "length (infer_types rws) = length rws"
  by (simp add: infer_types_def)

lemma infer_types_row_length:
  "i < length rws \<Longrightarrow> length (infer_types rws ! i) = length (rws ! i)"
  by (simp add: infer_types_def)

lemma infer_types_nth:
  "i < length rws \<Longrightarrow> k < length (rws ! i) \<Longrightarrow>
     infer_types rws ! i ! k =
       (if list_all bool_word (map (\<lambda>r. r ! k) rws) then bool_cell (rws ! i ! k) else rws ! i ! k)"
  by (simp add: infer_types_def)

lemma read_fwf_rows:
  "read_fwf ws buf = Inr raw \<Longrightarrow> raw = infer_types (map (map na_cell) (fwf_records ws buf))"
  by (auto simp: read_fwf_def Let_def split: if_splits)

lemma read_fwf_length:
  "read_fwf ws buf = Inr raw \<Longrightarrow> length raw = length (fwf_records ws buf)"
  by (auto dest: read_fwf_rows)

lemma fwf_records_row_length:
  "flds \<in> set (fwf_records ws buf) \<Longrightarrow> length flds = length ws"
  by (auto simp: fwf_records_def fwf_fields_length)

lemma read_fwf_row_length:
  assumes "read_fwf ws buf = Inr raw" and "r \<in> set raw"
  shows "length r = length ws"
proof -
  from assms(2) obtain i where i: "i < length raw" "r = raw ! i" by (auto simp: in_set_conv_nth)
  note raw = read_fwf_rows [OF assms(1)]
  from i have n: "i < length (fwf_records ws buf)" by (simp add: raw)
  then have "fwf_records ws buf ! i \<in> set (fwf_records ws buf)" by simp
  then have "length (fwf_records ws buf ! i) = length ws" by (rule fwf_records_row_length)
  with i n show ?thesis by (simp add: raw infer_types_row_length)
qed

text \<open>
  The cell of a row of the table read from a buffer: the field, missing when it is
  empty or a marker of a missing value, and a truth value when the whole column reads as
  truth values.
\<close>

lemma read_fwf_cell:
  assumes "read_fwf ws buf = Inr raw" and "i < length raw" and "k < length ws"
  shows "raw ! i ! k =
     (if list_all bool_word (map (\<lambda>flds. na_cell (flds ! k)) (fwf_records ws buf))
      then bool_cell (na_cell (fwf_records ws buf ! i ! k))
      else na_cell (fwf_records ws buf ! i ! k))"
proof -
  note raw = read_fwf_rows [OF assms(1)]
  from assms(2) have n: "i < length (fwf_records ws buf)" by (simp add: raw)
  then have "fwf_records ws buf ! i \<in> set (fwf_records ws buf)" by simp
  then have len: "length (fwf_records ws buf ! i) = length ws" by (rule fwf_records_row_length)
  have col: "map (\<lambda>r. r ! k) (map (map na_cell) (fwf_records ws buf))
      = map (\<lambda>flds. na_cell (flds ! k)) (fwf_records ws buf)"
    using assms(3) by (auto simp: fwf_records_row_length)
  show ?thesis
    unfolding raw using n len assms(3) by (simp add: infer_types_nth col del: map_map)
qed

lemma length_fwf_strip: "length (fwf_strip s) \<le> length s"
proof -
  have "length (dropWhile is_delim (rev (dropWhile is_delim s))) \<le> length (rev (dropWhile is_delim s))"
    by (rule length_dropWhile_le)
  also have "\<dots> \<le> length s" by (simp add: length_dropWhile_le)
  finally show ?thesis by (simp add: fwf_strip_def)
qed

lemma bool_cell_Txt_short: "length s < 4 \<Longrightarrow> bool_cell (Txt s) = Txt s"
proof -
  assume l: "length s < 4"
  have "s \<noteq> w" if "w \<in> set (true_values @ false_values)" for w
  proof
    assume "s = w"
    with l have "length w < 4" by simp
    with that show False by (auto simp: true_values_def false_values_def)
  qed
  then have "s \<notin> set true_values" "s \<notin> set false_values" by auto
  then show ?thesis by (simp add: bool_cell_def)
qed

lemma bool_cell_short: "length s < 4 \<Longrightarrow> bool_cell (na_cell s) = na_cell s"
proof (cases "List.member na_values s")
  case True
  then show ?thesis by (simp add: na_cell_def bool_cell_def)
next
  case False
  assume "length s < 4"
  from bool_cell_Txt_short [OF this] False show ?thesis by (simp add: na_cell_def)
qed

lemma bool_cell_NaN [simp]: "bool_cell NaN = NaN"
  by (simp add: bool_cell_def)

lemma bool_cell_eq_NaN [simp]: "bool_cell c = NaN \<longleftrightarrow> c = NaN"
  by (auto simp: bool_cell_def split: cell.splits)

lemma fwf_fields_nth:
  "k < length ws \<Longrightarrow>
     fwf_fields ws line ! k = fwf_strip (take (ws ! k) (drop (sum_list (take k ws)) line))"
proof (induction ws arbitrary: k line)
  case Nil
  then show ?case by simp
next
  case (Cons w ws)
  show ?case
  proof (cases k)
    case 0
    then show ?thesis by simp
  next
    case (Suc j)
    with Cons show ?thesis by (simp add: add.commute)
  qed
qed

lemma fwf_records_field_length:
  assumes "i < length (fwf_records ws buf)" and "k < length ws"
  shows "length (fwf_records ws buf ! i ! k) \<le> ws ! k"
proof -
  from assms(1) have "fwf_records ws buf ! i \<in> set (fwf_records ws buf)" by simp
  then obtain l where "fwf_records ws buf ! i = fwf_fields ws l" by (auto simp: fwf_records_def)
  then have "fwf_records ws buf ! i ! k = fwf_strip (take (ws ! k) (drop (sum_list (take k ws)) l))"
    using assms(2) by (simp add: fwf_fields_nth)
  moreover have "length (fwf_strip (take (ws ! k) (drop (sum_list (take k ws)) l))) \<le> ws ! k"
    using length_fwf_strip [of "take (ws ! k) (drop (sum_list (take k ws)) l)"] by simp
  ultimately show ?thesis by simp
qed

text \<open>A column narrower than four characters holds no truth value.\<close>

lemma read_fwf_cell_narrow:
  assumes "read_fwf ws buf = Inr raw" and "i < length raw" and "k < length ws" and "ws ! k < 4"
  shows "raw ! i ! k = na_cell (fwf_records ws buf ! i ! k)"
proof -
  from assms(2) have n: "i < length (fwf_records ws buf)" by (simp add: read_fwf_length [OF assms(1)])
  from fwf_records_field_length [OF n assms(3)] assms(4)
  have "length (fwf_records ws buf ! i ! k) < 4" by simp
  then have "bool_cell (na_cell (fwf_records ws buf ! i ! k)) = na_cell (fwf_records ws buf ! i ! k)"
    by (rule bool_cell_short)
  then show ?thesis unfolding read_fwf_cell [OF assms(1-3)] by simp
qed

lemma fwf_strip_blank: "list_all is_blank s \<Longrightarrow> fwf_strip s = []"
proof -
  assume "list_all is_blank s"
  then have "\<forall>c \<in> set s. is_delim c" by (auto simp: list_all_iff is_blank_def is_delim_def)
  then have d: "dropWhile is_delim s = []" by simp
  show ?thesis unfolding fwf_strip_def d by simp
qed

lemma na_cell_empty: "na_cell [] = NaN"
  by (simp add: na_cell_def na_values_def)

section \<open>Blank and unreadable fields\<close>

text \<open>
  The claim as stated fails for a field that is not blank and not a number: the first
  observation field of \<open>G01\<close> in \<open>ex3_text_lines\<close> holds \<open>abc\<close>, and the cell of the
  table holds that text, not a missing value.
\<close>

theorem text_field_counterexample:
  "slice (ex3_text_lines ! 5) 3 17 = ''           abc''
   \<and> read_rinex3_obs has_prn_cell stable_sort_index ex3_epochs ex3_text_lines NoIndex =
     Inr \<lparr>columns = [''epoch'', ''sys'', ''prn'', ''C1C'', ''C1C_LLI'', ''C1C_SSI'', ''L1C'', ''L1C_LLI'', ''L1C_SSI''],
          rows = [(Pos 0, [Stamp 100, Txt ''G'', Txt ''G01'', Txt ''abc'', NaN, NaN, Txt ''2.000'', NaN, NaN])]\<rparr>"
  by code_simp

section \<open>Loops and tables: general facts\<close>

lemma collect_Inr:
  "collect f xs = Inr ys \<Longrightarrow> list_all2 (\<lambda>x y. f x = Inr y) xs ys"
proof (induction xs arbitrary: ys)
  case Nil
  then show ?case by simp
next
  case (Cons x xs)
  then show ?case by (auto split: sum.splits)
qed

lemma col_positions_Cons:
  "col_positions c (x # xs) = (if x = c then [0] else []) @ map Suc (col_positions c xs)"
proof -
  have "[0..<Suc (length xs)] = 0 # map Suc [0..<length xs]"
    by (simp add: upt_conv_Cons map_Suc_upt del: upt_Suc)
  then show ?thesis by (simp add: col_positions_def filter_map comp_def del: upt_Suc)
qed

lemma col_positions_Nil [simp]: "col_positions c [] = []"
  by (simp add: col_positions_def)

lemma col_positions_first:
  "col_positions c cols = i # rest \<Longrightarrow> length r = length cols \<Longrightarrow> map_of (zip cols r) c = Some (r ! i)"
proof (induction cols arbitrary: r i rest)
  case Nil
  then show ?case by simp
next
  case (Cons x xs)
  then obtain y ys where r: "r = y # ys" by (cases r) auto
  show ?case
  proof (cases "x = c")
    case True
    with Cons.prems r show ?thesis by (simp add: col_positions_Cons)
  next
    case False
    with Cons.prems obtain j rest' where "col_positions c xs = j # rest'" "i = Suc j"
      by (auto simp: col_positions_Cons map_eq_Cons_conv)
    with Cons.IH [of j rest' ys] Cons.prems r False show ?thesis by simp
  qed
qed

lemma map_of_map_cells:
  "map_of (map (\<lambda>(c, x). (c, h c x)) ps) k = map_option (h k) (map_of ps k)"
  by (induction ps) auto

lemma zip_map_snd_elem: "(x, y) \<in> set (zip xs (map f xs)) \<Longrightarrow> y = f x"
  by (auto simp: in_set_zip)

lemma pd_concat_nonempty: "pd_concat fs = Inr ok \<Longrightarrow> fs \<noteq> []"
  by (auto simp: pd_concat_def)

lemma pd_concat_same:
  "fs \<noteq> [] \<Longrightarrow> list_all (\<lambda>f. columns f = c) fs \<Longrightarrow>
     pd_concat fs = Inr \<lparr>columns = c, rows = concat (map rows fs)\<rparr>"
proof -
  assume a: "fs \<noteq> []" "list_all (\<lambda>f. columns f = c) fs"
  then have "columns (hd fs) = c" by (cases fs) auto
  with a show ?thesis by (simp add: pd_concat_def)
qed

lemma pd_concat_labels:
  "pd_concat fs = Inr ok \<Longrightarrow> map fst (rows ok) = concat (map (\<lambda>f. map fst (rows f)) fs)"
  by (auto simp: pd_concat_def Let_def map_concat comp_def split_def split: if_splits
      intro!: arg_cong [where f = concat])

lemma pd_concat_length:
  "pd_concat fs = Inr ok \<Longrightarrow> length (rows ok) = sum_list (map (\<lambda>f. length (rows f)) fs)"
proof -
  assume "pd_concat fs = Inr ok"
  from arg_cong [OF pd_concat_labels [OF this], of length]
  show ?thesis by (simp add: length_concat comp_def)
qed

lemma length_sort_values: "sort_values names fr = Inr fr' \<Longrightarrow> length (rows fr') = length (rows fr)"
  by (auto simp: sort_values_def split: if_splits)

lemma length_reindex_cols: "reindex_cols new fr = Inr fr' \<Longrightarrow> length (rows fr') = length (rows fr)"
  by (auto simp: reindex_cols_def split: if_splits)

lemma length_number_rows [simp]: "length (number_rows rs) = length rs"
  by (simp add: number_rows_def)

lemma length_reset_index [simp]: "length (rows (reset_index fr)) = length (rows fr)"
  by (simp add: reset_index_def)

lemma map_fst_number_rows [simp]: "map fst (number_rows rs) = map Pos [0..<length rs]"
  by (simp add: number_rows_def)

lemma map_snd_number_rows [simp]: "map snd (number_rows rs) = rs"
  by (simp add: number_rows_def)

lemma length_rekey:
  assumes srt: "\<And>fr. columns (sort_index fr) = columns fr \<and> mset (rows (sort_index fr)) = mset (rows fr)"
    and r: "rekey sort_index arg fr = Inr t"
  shows "length (rows t) = length (rows fr)"
proof (cases "index_keys arg")
  case None
  with r show ?thesis by (simp add: rekey_def)
next
  case (Some keys)
  with r obtain fr' where s: "set_index keys fr = Inr fr'" and t: "t = sort_index fr'"
    by (auto simp: rekey_def split: sum.splits)
  from srt [of fr'] have "mset (rows (sort_index fr')) = mset (rows fr')" ..
  from arg_cong [OF this, of size] have "length (rows t) = length (rows fr')" by (simp add: t)
  moreover from s have "length (rows fr') = length (rows fr)"
    by (auto simp: set_index_def Let_def split: if_splits)
  ultimately show ?thesis by simp
qed

section \<open>The table of a RINEX 2 file\<close>

lemma assign_col_columns:
  "columns (assign_col n vals fr) = (if n \<in> set (columns fr) then columns fr else columns fr @ [n])"
  by (simp add: assign_col_def)

lemma assign_col_length:
  "length vals = length (rows fr) \<Longrightarrow> length (rows (assign_col n vals fr)) = length (rows fr)"
  by (simp add: assign_col_def)

lemma zip_map_cells:
  "zip xs (map (\<lambda>(c, x). h c x) (zip xs ys)) = map (\<lambda>(c, x). (c, h c x)) (zip xs ys)"
proof (induction xs arbitrary: ys)
  case Nil
  then show ?case by simp
next
  case (Cons x xs)
  then show ?case by (cases ys) auto
qed

lemma map_of_zip_Some:
  "c \<in> set cols \<Longrightarrow> length r = length cols \<Longrightarrow> \<exists>v. map_of (zip cols r) c = Some v"
  using map_of_zip_is_Some [of cols r c] by auto

lemma map_of_zip_None:
  "c \<notin> set cols \<Longrightarrow> map_of (zip cols r) c = None"
proof (induction cols arbitrary: r)
  case Nil
  then show ?case by simp
next
  case (Cons x xs)
  then show ?case by (cases r) auto
qed

text \<open>
  The cells of a row after \<^verbatim>\<open>df[n] = vals\<close>, read by column name: the new value under
  \<open>n\<close>, the old cell under every other name.
\<close>

lemma assign_col_elem:
  assumes wf: "\<forall>(l, r) \<in> set (rows fr). length r = length (columns fr)"
    and el: "(l, r') \<in> set (rows (assign_col n vals fr))"
  shows "\<exists>r v. ((l, r), v) \<in> set (zip (rows fr) vals)
     \<and> length r' = length (columns (assign_col n vals fr))
     \<and> (\<forall>c. map_of (zip (columns (assign_col n vals fr)) r') c =
             (if c = n then Some v else map_of (zip (columns fr) r) c))"
proof (cases "n \<in> set (columns fr)")
  case True
  with el obtain r v where z: "((l, r), v) \<in> set (zip (rows fr) vals)"
    and r': "r' = map (\<lambda>(c, x). if c = n then v else x) (zip (columns fr) r)"
    by (auto simp: assign_col_def)
  from z have "(l, r) \<in> set (rows fr)" by (rule set_zip_leftD)
  with wf have len: "length r = length (columns fr)" by auto
  from map_of_zip_Some [OF True len] obtain w where w: "map_of (zip (columns fr) r) n = Some w"
    by blast
  have "\<forall>c. map_of (zip (columns fr) r') c = (if c = n then Some v else map_of (zip (columns fr) r) c)"
    unfolding r' zip_map_cells map_of_map_cells using w by (auto simp: option.map_ident)
  moreover have "length r' = length (columns fr)" using len by (simp add: r')
  ultimately show ?thesis using z True by (auto simp: assign_col_columns)
next
  case False
  with el obtain r v where z: "((l, r), v) \<in> set (zip (rows fr) vals)" and r': "r' = r @ [v]"
    by (auto simp: assign_col_def)
  from z have "(l, r) \<in> set (rows fr)" by (rule set_zip_leftD)
  with wf have len: "length r = length (columns fr)" by auto
  have n: "map_of (zip (columns fr) r) n = None" using False by (rule map_of_zip_None)
  have zz: "zip (columns fr @ [n]) (r @ [v]) = zip (columns fr) r @ [(n, v)]"
    using len by simp
  have "\<forall>c. map_of (zip (columns fr @ [n]) r') c = (if c = n then Some v else map_of (zip (columns fr) r) c)"
  proof
    fix c
    show "map_of (zip (columns fr @ [n]) r') c = (if c = n then Some v else map_of (zip (columns fr) r) c)"
      unfolding r' zz using n by (cases "map_of (zip (columns fr) r) c") (auto simp: map_add_def)
  qed
  moreover have "length r' = length (columns fr @ [n])" using len by (simp add: r')
  ultimately show ?thesis using z False by (auto simp: assign_col_columns)
qed

lemma sats_loop_length:
  "sats_loop rd st il ls = Inr (Some (ep, ns, lc, sats, j)) \<Longrightarrow> length sats = nat ns"
proof (induction ls arbitrary: st il)
  case Nil
  then show ?case by simp
next
  case (Cons l ls)
  then show ?case
    by (auto simp: Let_def sats_split_def split: sum.splits if_splits)
qed

lemma sats_find_length:
  "sats_find rd ls = Inr (Some (ep, ns, lc, sats, j)) \<Longrightarrow> length sats = nat ns"
  unfolding sats_find_def by (rule sats_loop_length)

lemma rinex2_epoch_Inr_raw:
  assumes "rinex2_epoch rd Obs nobs L E i = Inr fr"
  shows "\<exists>ep ns lc sats il raw ip buf.
      sats_find rd (slice_to L (snd (E ! i)) (epoch_end E i)) = Inr (Some (ep, ns, lc, sats, il))
    \<and> read_fwf (obs_widths nobs) buf = Inr raw \<and> length Obs = length (obs_widths nobs)
    \<and> length sats = length raw
    \<and> col_positions ''prn'' (columns (assign_col ''prn'' (map Txt sats) \<lparr>columns = Obs, rows = number_rows raw\<rparr>)) = [ip]
    \<and> fr = assign_col ''epoch'' (replicate (length raw) (Stamp (fst (E ! i))))
             (assign_col ''sys''
                (map (\<lambda>(l, r). str0 (r ! ip))
                   (rows (assign_col ''prn'' (map Txt sats) \<lparr>columns = Obs, rows = number_rows raw\<rparr>)))
                (assign_col ''prn'' (map Txt sats) \<lparr>columns = Obs, rows = number_rows raw\<rparr>))"
  using assms
  by (auto simp: rinex2_epoch_def Let_def bind_err_def assign_sys_def
      split: sum.splits option.splits prod.splits if_splits list.splits)

lemma rinex2_epoch_Inr:
  assumes "rinex2_epoch rd Obs nobs L E i = Inr fr"
  shows "\<exists>ep ns lc sats il raw ip.
      sats_find rd (slice_to L (snd (E ! i)) (epoch_end E i)) = Inr (Some (ep, ns, lc, sats, il))
    \<and> (\<forall>r \<in> set raw. length r = length Obs) \<and> length sats = length raw
    \<and> col_positions ''prn'' (columns (assign_col ''prn'' (map Txt sats) \<lparr>columns = Obs, rows = number_rows raw\<rparr>)) = [ip]
    \<and> fr = assign_col ''epoch'' (replicate (length raw) (Stamp (fst (E ! i))))
             (assign_col ''sys''
                (map (\<lambda>(l, r). str0 (r ! ip))
                   (rows (assign_col ''prn'' (map Txt sats) \<lparr>columns = Obs, rows = number_rows raw\<rparr>)))
                (assign_col ''prn'' (map Txt sats) \<lparr>columns = Obs, rows = number_rows raw\<rparr>))"
proof -
  from rinex2_epoch_Inr_raw [OF assms] obtain ep ns lc sats il raw ip buf where
    a: "sats_find rd (slice_to L (snd (E ! i)) (epoch_end E i)) = Inr (Some (ep, ns, lc, sats, il))"
    and b: "read_fwf (obs_widths nobs) buf = Inr raw" "length Obs = length (obs_widths nobs)"
    and c: "length sats = length raw"
      "col_positions ''prn'' (columns (assign_col ''prn'' (map Txt sats) \<lparr>columns = Obs, rows = number_rows raw\<rparr>)) = [ip]"
      "fr = assign_col ''epoch'' (replicate (length raw) (Stamp (fst (E ! i))))
             (assign_col ''sys''
                (map (\<lambda>(l, r). str0 (r ! ip))
                   (rows (assign_col ''prn'' (map Txt sats) \<lparr>columns = Obs, rows = number_rows raw\<rparr>)))
                (assign_col ''prn'' (map Txt sats) \<lparr>columns = Obs, rows = number_rows raw\<rparr>))"
    by blast
  have "\<forall>r \<in> set raw. length r = length Obs"
    using read_fwf_row_length [OF b(1)] b(2) by simp
  with a c show ?thesis by blast
qed

lemma rinex2_epoch_nrows:
  assumes "rinex2_epoch rd Obs nobs L E i = Inr fr"
  shows "length (rows fr) = rinex2_nsat rd L E i"
proof -
  from rinex2_epoch_Inr [OF assms] obtain ep ns lc sats il raw ip where
    s: "sats_find rd (slice_to L (snd (E ! i)) (epoch_end E i)) = Inr (Some (ep, ns, lc, sats, il))"
    and len: "length sats = length raw"
    and fr: "fr = assign_col ''epoch'' (replicate (length raw) (Stamp (fst (E ! i))))
             (assign_col ''sys''
                (map (\<lambda>(l, r). str0 (r ! ip))
                   (rows (assign_col ''prn'' (map Txt sats) \<lparr>columns = Obs, rows = number_rows raw\<rparr>)))
                (assign_col ''prn'' (map Txt sats) \<lparr>columns = Obs, rows = number_rows raw\<rparr>))"
    by blast
  have "length (rows fr) = length raw"
    unfolding fr using len by (simp add: assign_col_length)
  also have "\<dots> = nat ns" using sats_find_length [OF s] len by simp
  finally show ?thesis by (simp add: rinex2_nsat_def s)
qed

lemma rinex2_epoch_columns:
  assumes "rinex2_epoch rd Obs nobs L E i = Inr fr" and "rinex2_epoch rd Obs nobs L E j = Inr fr'"
  shows "columns fr = columns fr'"
proof -
  from rinex2_epoch_Inr [OF assms(1)] obtain sats raw ip where
    fr: "fr = assign_col ''epoch'' (replicate (length raw) (Stamp (fst (E ! i))))
             (assign_col ''sys''
                (map (\<lambda>(l, r). str0 (r ! ip))
                   (rows (assign_col ''prn'' (map Txt sats) \<lparr>columns = Obs, rows = number_rows raw\<rparr>)))
                (assign_col ''prn'' (map Txt sats) \<lparr>columns = Obs, rows = number_rows raw\<rparr>))"
    by blast
  from rinex2_epoch_Inr [OF assms(2)] obtain sats' raw' ip' where
    fr': "fr' = assign_col ''epoch'' (replicate (length raw') (Stamp (fst (E ! j))))
             (assign_col ''sys''
                (map (\<lambda>(l, r). str0 (r ! ip'))
                   (rows (assign_col ''prn'' (map Txt sats') \<lparr>columns = Obs, rows = number_rows raw'\<rparr>)))
                (assign_col ''prn'' (map Txt sats') \<lparr>columns = Obs, rows = number_rows raw'\<rparr>))"
    by blast
  show ?thesis unfolding fr fr' by (simp add: assign_col_columns)
qed

text \<open>In the table of an epoch, the cell under \<open>sys\<close> is the first character of the one under \<open>prn\<close>.\<close>

lemma rinex2_epoch_sys:
  assumes "rinex2_epoch rd Obs nobs L E i = Inr fr" and el: "(l, r) \<in> set (rows fr)"
  shows "\<exists>p. map_of (zip (columns fr) r) ''prn'' = Some p \<and> map_of (zip (columns fr) r) ''sys'' = Some (str0 p)"
proof -
  from rinex2_epoch_Inr [OF assms(1)] obtain sats raw ip where
    raw: "\<forall>r \<in> set raw. length r = length Obs"
    and ip: "col_positions ''prn'' (columns (assign_col ''prn'' (map Txt sats) \<lparr>columns = Obs, rows = number_rows raw\<rparr>)) = [ip]"
    and fr: "fr = assign_col ''epoch'' (replicate (length raw) (Stamp (fst (E ! i))))
             (assign_col ''sys''
                (map (\<lambda>(l, r). str0 (r ! ip))
                   (rows (assign_col ''prn'' (map Txt sats) \<lparr>columns = Obs, rows = number_rows raw\<rparr>)))
                (assign_col ''prn'' (map Txt sats) \<lparr>columns = Obs, rows = number_rows raw\<rparr>))"
    by blast
  define F0 where "F0 = \<lparr>columns = Obs, rows = number_rows raw\<rparr>"
  define F1 where "F1 = assign_col ''prn'' (map Txt sats) F0"
  define F2 where "F2 = assign_col ''sys'' (map (\<lambda>(l, r). str0 (r ! ip)) (rows F1)) F1"
  have fr3: "fr = assign_col ''epoch'' (replicate (length raw) (Stamp (fst (E ! i)))) F2"
    unfolding fr F2_def F1_def F0_def ..
  have ip1: "col_positions ''prn'' (columns F1) = [ip]" using ip unfolding F1_def F0_def .
  have wf0: "\<forall>(l, r) \<in> set (rows F0). length r = length (columns F0)"
    using raw by (auto simp: F0_def number_rows_def dest: set_zip_rightD)
  have wf1: "\<forall>(l, r) \<in> set (rows F1). length r = length (columns F1)"
    using assign_col_elem [OF wf0] unfolding F1_def by blast
  have wf2: "\<forall>(l, r) \<in> set (rows F2). length r = length (columns F2)"
    using assign_col_elem [OF wf1] unfolding F2_def by blast
  from assign_col_elem [OF wf2 el [unfolded fr3]] obtain r2 v3 where
    z3: "((l, r2), v3) \<in> set (zip (rows F2) (replicate (length raw) (Stamp (fst (E ! i)))))"
    and l3: "\<forall>c. map_of (zip (columns fr) r) c = (if c = ''epoch'' then Some v3 else map_of (zip (columns F2) r2) c)"
    unfolding fr3 by blast
  from z3 have el2: "(l, r2) \<in> set (rows F2)" by (rule set_zip_leftD)
  from assign_col_elem [OF wf1 el2 [unfolded F2_def]] obtain r1 v2 where
    z2: "((l, r1), v2) \<in> set (zip (rows F1) (map (\<lambda>(l, r). str0 (r ! ip)) (rows F1)))"
    and l2: "\<forall>c. map_of (zip (columns F2) r2) c = (if c = ''sys'' then Some v2 else map_of (zip (columns F1) r1) c)"
    unfolding F2_def by blast
  from z2 have el1: "(l, r1) \<in> set (rows F1)" by (rule set_zip_leftD)
  from zip_map_snd_elem [OF z2] have v2: "v2 = str0 (r1 ! ip)" by simp
  from wf1 el1 have len1: "length r1 = length (columns F1)" by auto
  from col_positions_first [OF ip1 len1] have p1: "map_of (zip (columns F1) r1) ''prn'' = Some (r1 ! ip)" .
  have "map_of (zip (columns fr) r) ''prn'' = Some (r1 ! ip)"
    using l3 l2 p1 by simp
  moreover have "map_of (zip (columns fr) r) ''sys'' = Some (str0 (r1 ! ip))"
    using l3 l2 v2 by simp
  ultimately show ?thesis by blast
qed

lemma read_rinex2_Inr:
  assumes "read_rinex2_obs rd sort_index E L NoIndex = Inr t"
  shows "\<exists>H Obs nobs frs cat re srt. header_lines L = Inr H \<and> rinex2_header H = Inr (Obs, nobs)
    \<and> collect (rinex2_epoch rd Obs nobs L E) [0..<length E] = Inr frs \<and> pd_concat frs = Inr cat
    \<and> reindex_cols (''epoch'' # ''sys'' # ''prn'' # Obs) cat = Inr re
    \<and> sort_values [''epoch'', ''prn''] re = Inr srt \<and> t = reset_index srt"
  using assms
  by (auto simp: read_rinex2_obs_def bind_err_def rekey_NoIndex split: sum.splits prod.splits)

lemma list_all2_map_eq:
  "list_all2 (\<lambda>x y. f x = g y) xs ys \<Longrightarrow> map f xs = map g ys"
  by (induction rule: list_all2_induct) auto

lemma read_rinex2_row_count:
  assumes srt: "\<And>fr. columns (sort_index fr) = columns fr \<and> mset (rows (sort_index fr)) = mset (rows fr)"
    and rd: "read_rinex2_obs rd sort_index E L arg = Inr t"
  shows "length (rows t) = sum_list (map (rinex2_nsat rd L E) [0..<length E])"
proof -
  from rd obtain t0 where t0: "read_rinex2_obs rd sort_index E L NoIndex = Inr t0" and k: "rekey sort_index arg t0 = Inr t"
    by (auto simp: read_rinex2_obs_rekey [of rd sort_index E L arg] bind_err_def split: sum.splits)
  from read_rinex2_Inr [OF t0] obtain Obs nobs frs cat re srt where
    c: "collect (rinex2_epoch rd Obs nobs L E) [0..<length E] = Inr frs"
    and p: "pd_concat frs = Inr cat"
    and r: "reindex_cols (''epoch'' # ''sys'' # ''prn'' # Obs) cat = Inr re"
    and s: "sort_values [''epoch'', ''prn''] re = Inr srt" and t: "t0 = reset_index srt"
    by blast
  have "list_all2 (\<lambda>i fr. rinex2_nsat rd L E i = length (rows fr)) [0..<length E] frs"
    using collect_Inr [OF c] by (rule list_all2_mono) (simp add: rinex2_epoch_nrows)
  then have "map (rinex2_nsat rd L E) [0..<length E] = map (\<lambda>fr. length (rows fr)) frs"
    by (rule list_all2_map_eq)
  then show ?thesis
    using length_rekey [OF srt k] pd_concat_length [OF p] length_reindex_cols [OF r] length_sort_values [OF s]
    by (simp add: t)
qed

lemma reindex_row_nth:
  "i < length new \<Longrightarrow> reindex_row new old r ! i = (case map_of (zip old r) (new ! i) of None \<Rightarrow> NaN | Some v \<Rightarrow> v)"
  by (simp add: reindex_row_def)

lemma read_rinex2_sys:
  assumes "read_rinex2_obs rd sort_index E L NoIndex = Inr t" and el: "(l, r) \<in> set (rows t)"
  shows "r ! 1 = str0 (r ! 2)"
proof -
  from read_rinex2_Inr [OF assms(1)] obtain Obs nobs frs cat re srt where
    c: "collect (rinex2_epoch rd Obs nobs L E) [0..<length E] = Inr frs"
    and p: "pd_concat frs = Inr cat"
    and r: "reindex_cols (''epoch'' # ''sys'' # ''prn'' # Obs) cat = Inr re"
    and s: "sort_values [''epoch'', ''prn''] re = Inr srt" and t: "t = reset_index srt"
    by blast
  let ?new = "''epoch'' # ''sys'' # ''prn'' # Obs"
  have all: "list_all2 (\<lambda>i fr. rinex2_epoch rd Obs nobs L E i = Inr fr) [0..<length E] frs"
    using collect_Inr [OF c] .
  have ne: "frs \<noteq> []" using p by (rule pd_concat_nonempty)
  have ep: "\<exists>i. rinex2_epoch rd Obs nobs L E i = Inr fr" if "fr \<in> set frs" for fr
    using all that by (auto simp: list_all2_conv_all_nth in_set_conv_nth)
  have same: "list_all (\<lambda>f. columns f = columns (hd frs)) frs"
    unfolding list_all_iff
  proof
    fix f assume f: "f \<in> set frs"
    from ne have "hd frs \<in> set frs" by simp
    with ep f rinex2_epoch_columns show "columns f = columns (hd frs)" by blast
  qed
  from pd_concat_same [OF ne same] p
  have cat: "cat = \<lparr>columns = columns (hd frs), rows = concat (map rows frs)\<rparr>" by simp
  from el have "r \<in> snd ` set (rows srt)"
    by (auto simp: t reset_index_def number_rows_def dest!: set_zip_rightD)
  also have "set (rows srt) = set (rows re)"
    using s by (auto simp: sort_values_def split: if_splits)
  finally obtain l' where "(l', r) \<in> set (rows re)" by auto
  then obtain r0 where r0: "(l', r0) \<in> set (rows cat)" and rr: "r = reindex_row ?new (columns cat) r0"
    using r by (auto simp: reindex_cols_def split: if_splits)
  from r0 obtain fr where fr: "fr \<in> set frs" "(l', r0) \<in> set (rows fr)" by (auto simp: cat)
  from same fr(1) have cc: "columns cat = columns fr" by (simp add: cat list_all_iff)
  from ep [OF fr(1)] obtain i where "rinex2_epoch rd Obs nobs L E i = Inr fr" ..
  from rinex2_epoch_sys [OF this fr(2)] obtain p where
    "map_of (zip (columns fr) r0) ''prn'' = Some p" "map_of (zip (columns fr) r0) ''sys'' = Some (str0 p)"
    by blast
  then show ?thesis by (simp add: rr cc reindex_row_nth)
qed

lemma read_rinex2_columns:
  assumes "read_rinex2_obs rd sort_index E L NoIndex = Inr t"
  shows "\<exists>Obs. columns t = ''epoch'' # ''sys'' # ''prn'' # Obs"
proof -
  from read_rinex2_Inr [OF assms(1)] obtain Obs cat re srt where
    r: "reindex_cols (''epoch'' # ''sys'' # ''prn'' # Obs) cat = Inr re"
    and s: "sort_values [''epoch'', ''prn''] re = Inr srt" and t: "t = reset_index srt"
    by blast
  have "columns re = ''epoch'' # ''sys'' # ''prn'' # Obs"
    using r by (auto simp: reindex_cols_def split: if_splits)
  moreover have "columns srt = columns re"
    using s by (auto simp: sort_values_def split: if_splits)
  ultimately show ?thesis by (simp add: t reset_index_def)
qed

lemma pair_le_list2: "[a, b] \<le> [c, d] \<longleftrightarrow> (a, b) \<le> (c, d)" for a b c d :: "'a :: linorder"
  by (auto simp: less_eq_prod_def)

lemma read_rinex2_sorted:
  assumes "read_rinex2_obs rd sort_index E L NoIndex = Inr t"
  shows "sorted (map (\<lambda>(l, r). (cell_key (r ! 0), cell_key (r ! 2))) (rows t))
    \<and> map fst (rows t) = map Pos [0..<length (rows t)]"
proof -
  from read_rinex2_Inr [OF assms(1)] obtain Obs cat re srt where
    r: "reindex_cols (''epoch'' # ''sys'' # ''prn'' # Obs) cat = Inr re"
    and s: "sort_values [''epoch'', ''prn''] re = Inr srt" and t: "t = reset_index srt"
    by blast
  let ?new = "''epoch'' # ''sys'' # ''prn'' # Obs"
  have cr: "columns re = ?new"
    using r by (auto simp: reindex_cols_def split: if_splits)
  have one: "length (col_positions ''prn'' ?new) = 1"
    using s by (auto simp: sort_values_def cr split: if_splits)
  have e: "hd (col_positions ''epoch'' ?new) = 0" by (simp add: col_positions_Cons)
  have p: "hd (col_positions ''prn'' ?new) = 2" by (simp add: col_positions_Cons)
  define K where "K = (\<lambda>(l :: label, r :: cell list). [cell_key (r ! 0), cell_key (r ! 2)])"
  have "rows srt = sort_key K (rows re)"
    using s by (auto simp: sort_values_def cr e p K_def split: if_splits)
  then have "sorted (map K (rows srt))" by (simp add: sorted_sort_key)
  then have "sorted (map (\<lambda>r. [cell_key (r ! 0), cell_key (r ! 2)]) (map snd (rows srt)))"
    by (simp add: K_def comp_def split_def)
  then have "sorted_wrt (\<lambda>x y. [cell_key (x ! 0), cell_key (x ! 2)] \<le> [cell_key (y ! 0), cell_key (y ! 2)])
      (map snd (rows srt))"
    by (simp only: sorted_map)
  then have "sorted_wrt (\<lambda>x y. (cell_key (x ! 0), cell_key (x ! 2)) \<le> (cell_key (y ! 0), cell_key (y ! 2)))
      (map snd (rows srt))"
    by (simp only: pair_le_list2)
  then have "sorted (map (\<lambda>r. (cell_key (r ! 0), cell_key (r ! 2))) (map snd (rows srt)))"
    by (simp only: sorted_map)
  moreover have "map snd (rows t) = map snd (rows srt)" by (simp add: t reset_index_def)
  moreover have "map (\<lambda>(l, r). (cell_key (r ! 0), cell_key (r ! 2))) (rows t)
      = map (\<lambda>r. (cell_key (r ! 0), cell_key (r ! 2))) (map snd (rows t))"
    by (simp add: comp_def split_def)
  ultimately have "sorted (map (\<lambda>(l, r). (cell_key (r ! 0), cell_key (r ! 2))) (rows t))"
    by (simp only:)
  moreover have "map fst (rows t) = map Pos [0..<length (rows t)]"
    by (simp add: t reset_index_def)
  ultimately show ?thesis ..
qed

section \<open>The catalog of a RINEX 3 header\<close>

lemma dict_set_keys:
  "map fst (dict_set k v d) = (if k \<in> set (map fst d) then map fst d else map fst d @ [k])"
  by (induction d) auto

lemma dict_set_entries: "set (dict_set k v d) \<subseteq> insert (k, v) (set d)"
  by (induction d) auto

lemma rinex3_dicts_inv:
  assumes "rinex3_dicts ls use nobs = Inr (use', nobs')"
    and "distinct (map fst use)" and "map fst use = map fst nobs"
    and "\<forall>(s, names) \<in> set use. \<exists>codes. names = sys_columns codes"
  shows "distinct (map fst use') \<and> map fst use' = map fst nobs'
    \<and> (\<forall>(s, names) \<in> set use'. \<exists>codes. names = sys_columns codes)"
  using assms
proof (induction ls arbitrary: use nobs)
  case Nil
  then show ?case by simp
next
  case (Cons l ls)
  from Cons.prems(1) obtain s n codes k where
    sp: "py_split l = s # n # codes" and k: "py_int n = Some k"
    and rec: "rinex3_dicts ls (dict_set s (sys_columns codes) use) (dict_set s k nobs) = Inr (use', nobs')"
    by (auto split: list.splits option.splits)
  have 1: "distinct (map fst (dict_set s (sys_columns codes) use))"
    using Cons.prems(2) by (simp add: dict_set_keys)
  have 2: "map fst (dict_set s (sys_columns codes) use) = map fst (dict_set s k nobs)"
    using Cons.prems(3) by (simp add: dict_set_keys)
  have 3: "\<forall>(s, names) \<in> set (dict_set s (sys_columns codes) use). \<exists>codes. names = sys_columns codes"
    using Cons.prems(4) dict_set_entries [of s "sys_columns codes" use] by auto
  from Cons.IH [OF rec 1 2 3] show ?case .
qed

lemma rinex3_header_catalog:
  assumes "rinex3_header H = Inr (dict, nm)"
  shows "distinct (map fst dict) \<and> dict \<noteq> []
    \<and> (\<forall>(s, names) \<in> set dict. \<exists>codes. names = sys_columns codes)"
proof -
  from assms obtain ls nobs where
    d: "rinex3_dicts ls [] [] = Inr (dict, nobs)" and m: "max_values nobs = Inr nm"
    by (auto simp: rinex3_header_def bind_err_def split: sum.splits prod.splits)
  have p1: "distinct (map fst ([] :: (string \<times> string list) list))" by simp
  have p2: "map fst ([] :: (string \<times> string list) list) = map fst ([] :: (string \<times> int) list)"
    by simp
  have p3: "\<forall>(s, names) \<in> set ([] :: (string \<times> string list) list). \<exists>codes. names = sys_columns codes"
    by simp
  note i = rinex3_dicts_inv [OF d p1 p2 p3]
  from m have "nobs \<noteq> []" by (auto simp: max_values_def split: list.splits)
  with i have "dict \<noteq> []" by auto
  with i show ?thesis by blast
qed

lemma length_sys_columns: "length (sys_columns codes) = 1 + 3 * length codes"
  by (induction codes) (simp_all add: sys_columns_def obs_triple_def)

lemma select_sys_Inr:
  assumes "select_sys tc raw ncols e = Inr fr"
  shows "columns fr = snd e \<and> length (snd e) \<le> ncols \<and> tc (map (\<lambda>r. r ! 0) raw)
    \<and> rows fr = map (\<lambda>(l, r). (l, take (length (snd e)) r))
                   (filter (\<lambda>(l, r). str0 (r ! 0) = Txt (fst e)) (number_rows raw))"
  using assms by (auto simp: select_sys_def split: if_splits)

lemma number_rows_elem:
  "(l, r) \<in> set (number_rows raw) \<longleftrightarrow> (\<exists>i < length raw. l = Pos i \<and> r = raw ! i)"
proof
  assume "(l, r) \<in> set (number_rows raw)"
  then show "\<exists>i < length raw. l = Pos i \<and> r = raw ! i"
    by (auto simp: number_rows_def in_set_zip)
next
  assume "\<exists>i < length raw. l = Pos i \<and> r = raw ! i"
  then obtain i where "i < length raw" "l = Pos i" "r = raw ! i" by blast
  then have "map Pos [0..<length raw] ! i = l \<and> raw ! i = r \<and> i < length raw" by simp
  then show "(l, r) \<in> set (number_rows raw)"
    unfolding number_rows_def in_set_zip by (intro exI [of _ i]) simp
qed



section \<open>The table of a RINEX 3 file\<close>

lemma pd_concat_columns:
  assumes "pd_concat fs = Inr ok"
  shows "columns ok = (if list_all (\<lambda>c. c = hd (map columns fs)) (map columns fs)
                        then hd (map columns fs) else uniq (concat (map columns fs)))"
proof -
  from assms have ne: "fs \<noteq> []" by (rule pd_concat_nonempty)
  then have h: "hd (map columns fs) = columns (hd fs)" by (simp add: hd_map)
  have l: "list_all (\<lambda>c. c = columns (hd fs)) (map columns fs) = list_all (\<lambda>f. columns f = columns (hd fs)) fs"
    by (simp add: list_all_iff)
  from assms show ?thesis
    unfolding h l by (auto simp: pd_concat_def Let_def split: if_splits)
qed

lemma pd_concat_columns_cong:
  "pd_concat fs = Inr ok \<Longrightarrow> pd_concat fs' = Inr ok' \<Longrightarrow> map columns fs = map columns fs' \<Longrightarrow>
     columns ok = columns ok'"
  by (simp add: pd_concat_columns)

lemma pd_concat_hd:
  assumes "pd_concat fs = Inr ok" and "columns (hd fs) = c # cs"
  shows "\<exists>cs'. columns ok = c # cs'"
proof -
  from assms(1) obtain f fs' where fs: "fs = f # fs'" by (cases fs) (auto simp: pd_concat_def)
  with assms show ?thesis
    by (auto simp: pd_concat_def Let_def uniq_def split: if_splits)
qed

lemma pd_concat_elem:
  assumes "pd_concat fs = Inr ok" and "(l, r) \<in> set (rows ok)"
  shows "\<exists>f r0. f \<in> set fs \<and> (l, r0) \<in> set (rows f)
    \<and> (r = r0 \<or> r = reindex_row (columns ok) (columns f) r0)"
  using assms by (auto simp: pd_concat_def Let_def split: if_splits; blast)

lemma reindex_row_hd:
  "reindex_row (c # cs') (c # cs) (x # xs) ! 0 = x"
  by (simp add: reindex_row_def)

lemma rinex3_epoch_Inr:
  assumes "rinex3_epoch tc dict nm L E i = Inr fr"
  shows "\<exists>raw stk ok ip.
      read_fwf (sat_widths nm) (concat (slice_to L (snd (E ! i) + 1) (epoch_end E i))) = Inr raw
    \<and> collect (select_sys tc raw (length (sat_widths nm))) dict = Inr stk
    \<and> pd_concat stk = Inr ok \<and> col_positions ''prn'' (columns ok) = [ip]
    \<and> fr = align_concat (fst (E ! i)) ip ok"
  using assms
  by (auto simp: rinex3_epoch_def Let_def bind_err_def split: sum.splits list.splits)

lemma select_stack_columns:
  assumes "collect (select_sys tc raw n) dict = Inr stk"
  shows "map columns stk = map snd dict"
proof -
  have "list_all2 (\<lambda>e f. snd e = columns f) dict stk"
    using collect_Inr [OF assms] by (rule list_all2_mono) (simp add: select_sys_Inr)
  then show ?thesis by (rule list_all2_map_eq [symmetric])
qed

lemma align_concat_columns: "columns (align_concat e ip ok) = ''epoch'' # ''sys'' # columns ok"
  by (simp add: align_concat_def Let_def)

lemma rinex3_epoch_columns:
  assumes "rinex3_epoch tc dict nm L E i = Inr fr" and "rinex3_epoch tc dict nm L E j = Inr fr'"
  shows "columns fr = columns fr'"
proof -
  from rinex3_epoch_Inr [OF assms(1)] obtain raw stk ok ip where
    a: "collect (select_sys tc raw (length (sat_widths nm))) dict = Inr stk" "pd_concat stk = Inr ok"
      "fr = align_concat (fst (E ! i)) ip ok"
    by blast
  from rinex3_epoch_Inr [OF assms(2)] obtain raw' stk' ok' ip' where
    b: "collect (select_sys tc raw' (length (sat_widths nm))) dict = Inr stk'" "pd_concat stk' = Inr ok'"
      "fr' = align_concat (fst (E ! j)) ip' ok'"
    by blast
  have "map columns stk = map columns stk'"
    using select_stack_columns [OF a(1)] select_stack_columns [OF b(1)] by simp
  from pd_concat_columns_cong [OF a(2) b(2) this] show ?thesis
    by (simp add: a(3) b(3) align_concat_columns)
qed

text \<open>The column \<open>prn\<close> is the first column of the table of the selected systems.\<close>

lemma rinex3_prn_first:
  assumes cat: "distinct (map fst dict) \<and> dict \<noteq> []
      \<and> (\<forall>(s, names) \<in> set dict. \<exists>codes. names = sys_columns codes)"
    and stk: "collect (select_sys tc raw n) dict = Inr stk"
    and ok: "pd_concat stk = Inr ok"
  shows "\<exists>cs. columns ok = ''prn'' # cs"
proof -
  from cat obtain e es where d: "dict = e # es" by (cases dict) auto
  with cat obtain codes where "snd e = sys_columns codes" by (cases e) auto
  moreover have "columns (hd stk) = snd e"
    using select_stack_columns [OF stk] d by (cases stk) auto
  ultimately have "columns (hd stk) = ''prn'' # concat (map obs_triple codes)"
    by (simp add: sys_columns_def)
  from pd_concat_hd [OF ok this] show ?thesis .
qed

lemma col_positions_hd_first: "col_positions c (c # cs) = [ip] \<Longrightarrow> ip = 0"
  by (simp add: col_positions_Cons)

lemma rinex3_epoch_sys:
  assumes cat: "distinct (map fst dict) \<and> dict \<noteq> []
      \<and> (\<forall>(s, names) \<in> set dict. \<exists>codes. names = sys_columns codes)"
    and ep: "rinex3_epoch tc dict nm L E i = Inr fr" and el: "(l, r) \<in> set (rows fr)"
  shows "r ! 1 = str0 (r ! 2) \<and> (\<exists>cs. columns fr = ''epoch'' # ''sys'' # ''prn'' # cs)"
proof -
  from rinex3_epoch_Inr [OF ep] obtain raw stk ok ip where
    a: "collect (select_sys tc raw (length (sat_widths nm))) dict = Inr stk" "pd_concat stk = Inr ok"
      "col_positions ''prn'' (columns ok) = [ip]" "fr = align_concat (fst (E ! i)) ip ok"
    by blast
  from rinex3_prn_first [OF cat a(1) a(2)] obtain cs where cs: "columns ok = ''prn'' # cs" ..
  with a(3) have ip: "ip = 0" by (simp add: col_positions_hd_first)
  from el obtain x where "r = x # (case map_of (rows ok) l of
        None \<Rightarrow> replicate (Suc (length (columns ok))) NaN | Some r0 \<Rightarrow> str0 (r0 ! 0) # r0)"
    by (auto simp: a(4) ip align_concat_def Let_def)
  then have "r ! 1 = str0 (r ! 2)"
    by (cases "map_of (rows ok) l") (simp_all add: cs)
  then show ?thesis by (simp add: a(4) align_concat_columns cs)
qed

lemma read_rinex3_Inr:
  assumes "read_rinex3_obs tc sort_index E L NoIndex = Inr t"
  shows "\<exists>H dict nm frs cat. header_lines L = Inr H \<and> rinex3_header H = Inr (dict, nm)
    \<and> collect (rinex3_epoch tc dict nm L E) [0..<length E] = Inr frs \<and> pd_concat frs = Inr cat
    \<and> t = reset_index cat"
  using assms
  by (auto simp: read_rinex3_obs_def bind_err_def rekey_NoIndex split: sum.splits prod.splits)

lemma collect_elem:
  "collect f xs = Inr ys \<Longrightarrow> y \<in> set ys \<Longrightarrow> \<exists>x \<in> set xs. f x = Inr y"
proof -
  assume c: "collect f xs = Inr ys" and "y \<in> set ys"
  then obtain i where i: "i < length ys" "y = ys ! i" by (auto simp: in_set_conv_nth)
  from collect_Inr [OF c] have "length xs = length ys" "f (xs ! i) = Inr (ys ! i)"
    using i by (auto simp: list_all2_conv_all_nth)
  with i have "xs ! i \<in> set xs" "f (xs ! i) = Inr y" by simp_all
  then show ?thesis by blast
qed

lemma read_rinex3_rows:
  assumes c: "collect (rinex3_epoch tc dict nm L E) [0..<length E] = Inr frs"
    and p: "pd_concat frs = Inr cat"
  shows "cat = \<lparr>columns = columns (hd frs), rows = concat (map rows frs)\<rparr>"
proof -
  have ne: "frs \<noteq> []" using p by (rule pd_concat_nonempty)
  have same: "list_all (\<lambda>f. columns f = columns (hd frs)) frs"
    unfolding list_all_iff
  proof
    fix f assume f: "f \<in> set frs"
    from ne have "hd frs \<in> set frs" by simp
    with collect_elem [OF c] f rinex3_epoch_columns show "columns f = columns (hd frs)" by blast
  qed
  from pd_concat_same [OF ne same] p show ?thesis by simp
qed

lemma read_rinex3_sys:
  assumes "read_rinex3_obs tc sort_index E L NoIndex = Inr t"
  shows "(\<exists>cs. columns t = ''epoch'' # ''sys'' # ''prn'' # cs)
    \<and> (\<forall>(l, r) \<in> set (rows t). r ! 1 = str0 (r ! 2))"
proof -
  from read_rinex3_Inr [OF assms] obtain H dict nm frs cat where
    h: "rinex3_header H = Inr (dict, nm)"
    and c: "collect (rinex3_epoch tc dict nm L E) [0..<length E] = Inr frs"
    and p: "pd_concat frs = Inr cat" and t: "t = reset_index cat"
    by blast
  note catalog = rinex3_header_catalog [OF h]
  note cat = read_rinex3_rows [OF c p]
  have ne: "frs \<noteq> []" using p by (rule pd_concat_nonempty)
  then have hd: "hd frs \<in> set frs" by simp
  have rows: "r ! 1 = str0 (r ! 2)" if "(l, r) \<in> set (rows t)" for l r
  proof -
    from that have "r \<in> snd ` set (rows cat)"
      by (auto simp: t reset_index_def number_rows_def dest!: set_zip_rightD)
    then obtain l' fr where fr: "fr \<in> set frs" "(l', r) \<in> set (rows fr)" by (auto simp: cat)
    from collect_elem [OF c fr(1)] obtain i where "rinex3_epoch tc dict nm L E i = Inr fr" by blast
    from rinex3_epoch_sys [OF catalog this fr(2)] show ?thesis by simp
  qed
  have "\<exists>cs. columns t = ''epoch'' # ''sys'' # ''prn'' # cs"
  proof (cases "rows (hd frs)")
    case Nil
    from collect_elem [OF c hd] obtain i where i: "rinex3_epoch tc dict nm L E i = Inr (hd frs)" by blast
    from rinex3_epoch_Inr [OF i] obtain raw stk ok ip where
      a: "collect (select_sys tc raw (length (sat_widths nm))) dict = Inr stk" "pd_concat stk = Inr ok"
        "hd frs = align_concat (fst (E ! i)) ip ok"
      by blast
    from rinex3_prn_first [OF catalog a(1) a(2)] obtain cs where "columns ok = ''prn'' # cs" ..
    then show ?thesis by (simp add: t reset_index_def cat a(3) align_concat_columns)
  next
    case (Cons x xs)
    then obtain l r where lr: "(l, r) \<in> set (rows (hd frs))" by (cases x) auto
    from collect_elem [OF c hd] obtain i where i: "rinex3_epoch tc dict nm L E i = Inr (hd frs)" by blast
    from rinex3_epoch_sys [OF catalog i lr] show ?thesis by (simp add: t reset_index_def cat)
  qed
  with rows show ?thesis by blast
qed

section \<open>Files whose satellites all belong to declared systems\<close>

lemma py_strip_nonempty: "s \<noteq> [] \<Longrightarrow> \<not> is_space (hd s) \<Longrightarrow> py_strip s \<noteq> []"
proof -
  assume "s \<noteq> []" and h: "\<not> is_space (hd s)"
  then obtain c cs where s: "s = c # cs" by (cases s) auto
  with h have "dropWhile is_space s = s" by simp
  moreover have "dropWhile is_space (rev s) \<noteq> []"
    using h s by (auto simp: dropWhile_eq_Nil_conv)
  ultimately show ?thesis by (simp add: py_strip_def)
qed

lemma declared_line_cell:
  assumes "declared_line keys l"
  shows "\<exists>f. fwf_strip (take 3 l) = f \<and> f \<noteq> [] \<and> prn_cell l = Txt f \<and> [hd f] \<in> set keys
    \<and> \<not> is_space (hd f)"
proof -
  let ?f = "fwf_strip (take 3 l)"
  from assms have t: "prn_cell l = Txt ?f"
    by (auto simp: declared_line_def prn_cell_def na_cell_def split: if_splits)
  with assms have "?f \<noteq> []" by (auto simp: declared_line_def)
  then obtain c cs where f: "?f = c # cs" by (cases ?f) auto
  with assms t have "[hd ?f] \<in> set keys \<and> \<not> is_space (hd ?f)"
    by (auto simp: declared_line_def)
  with t \<open>?f \<noteq> []\<close> show ?thesis by blast
qed

lemma declared_not_blank:
  assumes "declared_line keys l"
  shows "\<not> row_blank (fwf_fields (sat_widths nm) l)"
proof -
  from declared_line_cell [OF assms] have "fwf_strip (take 3 l) \<noteq> []"
    and "\<not> is_space (hd (fwf_strip (take 3 l)))"
    by blast+
  then have "py_strip (fwf_strip (take 3 l)) \<noteq> []" by (rule py_strip_nonempty)
  then show ?thesis by (simp add: sat_widths_def row_blank_def)
qed

text \<open>The rows read from a block of declared records: one per line, in order.\<close>

lemma declared_records:
  assumes d: "list_all (declared_line keys) (buf_lines [] buf)"
  shows "fwf_records (sat_widths nm) buf = map (fwf_fields (sat_widths nm)) (buf_lines [] buf)"
proof -
  have "filter (\<lambda>flds. \<not> row_blank flds) (map (fwf_fields (sat_widths nm)) (buf_lines [] buf))
      = map (fwf_fields (sat_widths nm)) (buf_lines [] buf)"
  proof (rule filter_True)
    show "\<forall>x \<in> set (map (fwf_fields (sat_widths nm)) (buf_lines [] buf)). \<not> row_blank x"
      using d declared_not_blank [of keys _ nm] by (auto simp: list_all_iff)
  qed
  then show ?thesis by (simp add: fwf_records_def)
qed

lemma declared_raw:
  assumes d: "list_all (declared_line keys) (buf_lines [] buf)"
    and r: "read_fwf (sat_widths nm) buf = Inr raw"
  shows "length raw = length (buf_lines [] buf)"
    and "map (\<lambda>r. r ! 0) raw = map prn_cell (buf_lines [] buf)"
proof -
  note recs = declared_records [OF d, of nm]
  show len: "length raw = length (buf_lines [] buf)"
    using read_fwf_length [OF r] by (simp add: recs)
  show "map (\<lambda>r. r ! 0) raw = map prn_cell (buf_lines [] buf)"
  proof (rule nth_equalityI)
    show "length (map (\<lambda>r. r ! 0) raw) = length (map prn_cell (buf_lines [] buf))"
      by (simp add: len)
  next
    fix j assume "j < length (map (\<lambda>r. r ! 0) raw)"
    then have j: "j < length raw" by simp
    have k: "0 < length (sat_widths nm)" and w: "sat_widths nm ! 0 < 4"
      by (simp_all add: sat_widths_def)
    from read_fwf_cell_narrow [OF r j k w]
    have "raw ! j ! 0 = na_cell (fwf_fields (sat_widths nm) (buf_lines [] buf ! j) ! 0)"
      using j len by (simp add: recs)
    then show "map (\<lambda>r. r ! 0) raw ! j = map prn_cell (buf_lines [] buf) ! j"
      using j len by (simp add: sat_widths_def prn_cell_def)
  qed
qed

lemma length_filter_partition:
  "distinct (map g ks) \<Longrightarrow> \<forall>x \<in> set xs. f x \<in> g ` set ks \<Longrightarrow>
     length (concat (map (\<lambda>k. filter (\<lambda>x. f x = g k) xs) ks)) = length xs"
proof (induction ks arbitrary: xs)
  case Nil
  then show ?case by simp
next
  case (Cons k ks)
  let ?xs' = "filter (\<lambda>x. f x \<noteq> g k) xs"
  have a: "map (\<lambda>k'. filter (\<lambda>x. f x = g k') xs) ks = map (\<lambda>k'. filter (\<lambda>x. f x = g k') ?xs') ks"
  proof (rule map_cong [OF refl])
    fix k' assume "k' \<in> set ks"
    then have "g k' \<in> g ` set ks" by (rule imageI)
    moreover from Cons.prems(1) have "g k \<notin> g ` set ks" by simp
    ultimately have "g k' \<noteq> g k" by metis
    then show "filter (\<lambda>x. f x = g k') xs = filter (\<lambda>x. f x = g k') ?xs'"
      by (auto intro: filter_cong)
  qed
  have b: "length (concat (map (\<lambda>k'. filter (\<lambda>x. f x = g k') ?xs') ks)) = length ?xs'"
    using Cons.prems by (intro Cons.IH) auto
  have c: "length (filter (\<lambda>x. f x = g k) xs) + length ?xs' = length xs"
    by (rule sum_length_filter_compl)
  have "length (concat (map (\<lambda>k. filter (\<lambda>x. f x = g k) xs) (k # ks)))
      = length (filter (\<lambda>x. f x = g k) xs) + length (concat (map (\<lambda>k'. filter (\<lambda>x. f x = g k') xs) ks))"
    by simp
  also have "\<dots> = length (filter (\<lambda>x. f x = g k) xs) + length ?xs'"
    unfolding a b ..
  also have "\<dots> = length xs" by (rule c)
  finally show ?case .
qed

lemma select_stack_rows:
  assumes "collect (select_sys tc raw n) dict = Inr stk"
  shows "list_all2 (\<lambda>e f. select_sys tc raw n e = Inr f) dict stk"
  using collect_Inr [OF assms] .

text \<open>
  The table of an epoch whose records all belong to declared systems: the rows are
  labelled in the order of the lines of the block, and the identifier of each row is the
  one of its line.
\<close>

lemma rinex3_epoch_declared:
  assumes cat: "distinct (map fst dict) \<and> dict \<noteq> []
      \<and> (\<forall>(s, names) \<in> set dict. \<exists>codes. names = sys_columns codes)"
    and ep: "rinex3_epoch tc dict nm L E i = Inr fr"
    and d: "list_all (declared_line (map fst dict)) (sat_lines L E i)"
  shows "map fst (rows fr) = map Pos [0..<length (sat_lines L E i)]
    \<and> map (\<lambda>(l, r). r ! 2) (rows fr) = map prn_cell (sat_lines L E i)"
proof -
  let ?lines = "sat_lines L E i"
  from rinex3_epoch_Inr [OF ep] obtain raw stk ok ip where
    rd: "read_fwf (sat_widths nm) (concat (slice_to L (snd (E ! i) + 1) (epoch_end E i))) = Inr raw"
    and stk: "collect (select_sys tc raw (length (sat_widths nm))) dict = Inr stk"
    and ok: "pd_concat stk = Inr ok" and ipp: "col_positions ''prn'' (columns ok) = [ip]"
    and fr: "fr = align_concat (fst (E ! i)) ip ok"
    by blast
  from rinex3_prn_first [OF cat stk ok] obtain cs where cs: "columns ok = ''prn'' # cs" ..
  with ipp have ip: "ip = 0" by (simp add: col_positions_hd_first)
  have d': "list_all (declared_line (map fst dict))
      (buf_lines [] (concat (slice_to L (snd (E ! i) + 1) (epoch_end E i))))"
    using d by (simp add: sat_lines_def)
  from declared_raw [OF d' rd] have
    m: "length raw = length ?lines" and c0: "map (\<lambda>r. r ! 0) raw = map prn_cell ?lines"
    by (simp_all add: sat_lines_def)
  have c0n: "raw ! j ! 0 = prn_cell (?lines ! j)" if "j < length raw" for j
    using arg_cong [OF c0, of "\<lambda>xs. xs ! j"] that m by simp
  define xs where "xs = number_rows raw"
  define key where "key = (\<lambda>x :: label \<times> cell list. str0 (snd x ! 0))"
  define g where "g = (\<lambda>e :: string \<times> string list. Txt (fst e))"
  have keyed: "key x \<in> g ` set dict" if "x \<in> set xs" for x
  proof -
    from that have "(fst x, snd x) \<in> set (number_rows raw)" by (simp add: xs_def)
    then obtain j where "j < length raw" "fst x = Pos j" "snd x = raw ! j"
      unfolding number_rows_elem by blast
    then have j: "j < length raw" "x = (Pos j, raw ! j)" by (simp_all add: prod_eq_iff)
    with m have "?lines ! j \<in> set ?lines" by simp
    with d have "declared_line (map fst dict) (?lines ! j)" by (simp add: list_all_iff)
    from declared_line_cell [OF this] obtain f where
      f: "f \<noteq> []" "prn_cell (?lines ! j) = Txt f" "[hd f] \<in> set (map fst dict)"
      by blast
    then obtain e where e: "e \<in> set dict" "fst e = [hd f]" by auto
    from f(1) have "str0 (Txt f) = Txt [hd f]" by (cases f) auto
    with j f e show ?thesis by (auto simp: key_def g_def c0n)
  qed
  have dg: "distinct (map g dict)"
    using cat by (simp add: g_def distinct_map inj_on_def comp_def)
  have sel: "list_all2 (\<lambda>e f. rows f = map (\<lambda>(l, r). (l, take (length (snd e)) r))
        (filter (\<lambda>x. key x = g e) xs)) dict stk"
    using select_stack_rows [OF stk]
    by (rule list_all2_mono) (simp add: select_sys_Inr xs_def key_def g_def split_def)
  have "list_all2 (\<lambda>e f. map fst (filter (\<lambda>x. key x = g e) xs) = map fst (rows f)) dict stk"
    using sel by (rule list_all2_mono) (simp add: comp_def split_def)
  then have "map (\<lambda>e. map fst (filter (\<lambda>x. key x = g e) xs)) dict = map (\<lambda>f. map fst (rows f)) stk"
    by (rule list_all2_map_eq)
  with pd_concat_labels [OF ok] have labels:
    "map fst (rows ok) = concat (map (\<lambda>e. map fst (filter (\<lambda>x. key x = g e) xs)) dict)"
    by simp
  have "length (map fst (rows ok)) = length (concat (map (\<lambda>e. filter (\<lambda>x. key x = g e) xs) dict))"
    unfolding labels by (simp add: length_concat comp_def)
  also have "\<dots> = length xs"
    using dg keyed by (intro length_filter_partition) auto
  finally have n: "length (rows ok) = length raw" by (simp add: xs_def)
  have inbase: "l \<in> set (map Pos [0..<length raw])" if "l \<in> set (map fst (rows ok))" for l
  proof -
    from that obtain x where "x \<in> set xs" "l = fst x" unfolding labels by auto
    then have "(l, snd x) \<in> set (number_rows raw)" by (simp add: xs_def)
    then show ?thesis unfolding number_rows_elem by auto
  qed
  have nofilter: "filter (\<lambda>l. \<not> List.member (map Pos [0..<length raw]) l) (map fst (rows ok)) = []"
    using inbase by (auto simp: filter_empty_conv)
  have rows: "rows fr = map (\<lambda>l. (l, Stamp (fst (E ! i)) #
        (case map_of (rows ok) l of
           None \<Rightarrow> replicate (Suc (length (columns ok))) NaN
         | Some r \<Rightarrow> str0 (r ! 0) # r))) (map Pos [0..<length raw])"
    unfolding fr align_concat_def Let_def n nofilter ip using inbase by (simp add: comp_def)
  have val: "r0 ! 0 = raw ! j ! 0" if "j < length raw" "(Pos j, r0) \<in> set (rows ok)" for j r0
  proof -
    from pd_concat_elem [OF ok that(2)] obtain f r1 where
      f: "f \<in> set stk" "(Pos j, r1) \<in> set (rows f)"
      and r0: "r0 = r1 \<or> r0 = reindex_row (columns ok) (columns f) r1"
      by blast
    from collect_elem [OF stk f(1)] obtain e where
      e: "e \<in> set dict" "select_sys tc raw (length (sat_widths nm)) e = Inr f" by blast
    from cat e(1) obtain codes where codes: "snd e = sys_columns codes" by (cases e) auto
    from select_sys_Inr [OF e(2)] f(2) have cf: "columns f = snd e"
      and r1: "r1 = take (length (snd e)) (raw ! j)"
      by (auto simp: number_rows_elem)
    have "raw ! j \<in> set raw" using that(1) by simp
    from read_fwf_row_length [OF rd this] have len: "length (raw ! j) = length (sat_widths nm)" .
    then obtain y ys where y: "raw ! j = y # ys" by (cases "raw ! j") (auto simp: sat_widths_def)
    have r1': "r1 = y # take (3 * length codes) ys"
      by (simp add: r1 codes length_sys_columns y)
    show ?thesis
    proof (cases "r0 = r1")
      case True
      then show ?thesis by (simp add: r1' y)
    next
      case False
      with r0 have "r0 = reindex_row (''prn'' # cs) (''prn'' # concat (map obs_triple codes)) (y # take (3 * length codes) ys)"
        by (simp add: cs cf codes sys_columns_def r1')
      then show ?thesis by (simp add: reindex_row_hd y)
    qed
  qed
  have cell: "(case map_of (rows ok) (Pos j) of
           None \<Rightarrow> replicate (Suc (length (columns ok))) NaN
         | Some r \<Rightarrow> str0 (r ! 0) # r) ! 1 = prn_cell (?lines ! j)" if "j < length raw" for j
  proof -
    have "(Pos j, raw ! j) \<in> set xs" using that by (auto simp: xs_def number_rows_elem)
    moreover from keyed [OF this] obtain e where "e \<in> set dict" "key (Pos j, raw ! j) = g e" by auto
    ultimately have "Pos j \<in> set (map fst (rows ok))"
      unfolding labels by (auto intro!: bexI [of _ e] image_eqI [of _ _ "(Pos j, raw ! j)"])
    then have "map_of (rows ok) (Pos j) \<noteq> None" by (simp add: map_of_eq_None_iff)
    then obtain r0 where r0: "map_of (rows ok) (Pos j) = Some r0" by auto
    then have "(Pos j, r0) \<in> set (rows ok)" by (rule map_of_SomeD)
    from val [OF that this] show ?thesis by (simp add: r0 c0n [OF that])
  qed
  have "map (\<lambda>(l, r). r ! 2) (rows fr) = map prn_cell ?lines"
  proof (rule nth_equalityI)
    show "length (map (\<lambda>(l, r). r ! 2) (rows fr)) = length (map prn_cell ?lines)"
      by (simp add: rows m)
  next
    fix j assume "j < length (map (\<lambda>(l, r). r ! 2) (rows fr))"
    then have j: "j < length raw" by (simp add: rows)
    with cell [OF j] show "map (\<lambda>(l, r). r ! 2) (rows fr) ! j = map prn_cell ?lines ! j"
      by (simp add: rows m)
  qed
  moreover have "map fst (rows fr) = map Pos [0..<length ?lines]"
    by (simp add: rows m comp_def)
  ultimately show ?thesis by simp
qed

section \<open>Row order and row count\<close>

text \<open>In the table of a RINEX 2 epoch, \<open>epoch\<close> holds a time stamp and \<open>prn\<close> a text.\<close>

lemma rinex2_epoch_cells:
  assumes "rinex2_epoch rd Obs nobs L E i = Inr fr" and el: "(l, r) \<in> set (rows fr)"
  shows "\<exists>e s. map_of (zip (columns fr) r) ''epoch'' = Some (Stamp e)
     \<and> map_of (zip (columns fr) r) ''prn'' = Some (Txt s)"
proof -
  from rinex2_epoch_Inr [OF assms(1)] obtain sats raw ip where
    raw: "\<forall>r \<in> set raw. length r = length Obs"
    and fr: "fr = assign_col ''epoch'' (replicate (length raw) (Stamp (fst (E ! i))))
             (assign_col ''sys''
                (map (\<lambda>(l, r). str0 (r ! ip))
                   (rows (assign_col ''prn'' (map Txt sats) \<lparr>columns = Obs, rows = number_rows raw\<rparr>)))
                (assign_col ''prn'' (map Txt sats) \<lparr>columns = Obs, rows = number_rows raw\<rparr>))"
    by blast
  define F0 where "F0 = \<lparr>columns = Obs, rows = number_rows raw\<rparr>"
  define F1 where "F1 = assign_col ''prn'' (map Txt sats) F0"
  define F2 where "F2 = assign_col ''sys'' (map (\<lambda>(l, r). str0 (r ! ip)) (rows F1)) F1"
  have fr3: "fr = assign_col ''epoch'' (replicate (length raw) (Stamp (fst (E ! i)))) F2"
    unfolding fr F2_def F1_def F0_def ..
  have wf0: "\<forall>(l, r) \<in> set (rows F0). length r = length (columns F0)"
    using raw by (auto simp: F0_def number_rows_def dest: set_zip_rightD)
  have wf1: "\<forall>(l, r) \<in> set (rows F1). length r = length (columns F1)"
    using assign_col_elem [OF wf0] unfolding F1_def by blast
  have wf2: "\<forall>(l, r) \<in> set (rows F2). length r = length (columns F2)"
    using assign_col_elem [OF wf1] unfolding F2_def by blast
  from assign_col_elem [OF wf2 el [unfolded fr3]] obtain r2 v3 where
    z3: "((l, r2), v3) \<in> set (zip (rows F2) (replicate (length raw) (Stamp (fst (E ! i)))))"
    and l3: "\<forall>c. map_of (zip (columns fr) r) c = (if c = ''epoch'' then Some v3 else map_of (zip (columns F2) r2) c)"
    unfolding fr3 by blast
  from z3 have el2: "(l, r2) \<in> set (rows F2)" by (rule set_zip_leftD)
  from set_zip_rightD [OF z3] have v3: "v3 = Stamp (fst (E ! i))" by simp
  from assign_col_elem [OF wf1 el2 [unfolded F2_def]] obtain r1 v2 where
    z2: "((l, r1), v2) \<in> set (zip (rows F1) (map (\<lambda>(l, r). str0 (r ! ip)) (rows F1)))"
    and l2: "\<forall>c. map_of (zip (columns F2) r2) c = (if c = ''sys'' then Some v2 else map_of (zip (columns F1) r1) c)"
    unfolding F2_def by blast
  from z2 have el1: "(l, r1) \<in> set (rows F1)" by (rule set_zip_leftD)
  from assign_col_elem [OF wf0 el1 [unfolded F1_def]] obtain r0 v1 where
    z1: "((l, r0), v1) \<in> set (zip (rows F0) (map Txt sats))"
    and l1: "\<forall>c. map_of (zip (columns F1) r1) c = (if c = ''prn'' then Some v1 else map_of (zip (columns F0) r0) c)"
    unfolding F1_def by blast
  from set_zip_rightD [OF z1] obtain s where s: "v1 = Txt s" by auto
  have "map_of (zip (columns fr) r) ''epoch'' = Some (Stamp (fst (E ! i)))"
    using l3 v3 by simp
  moreover have "map_of (zip (columns fr) r) ''prn'' = Some (Txt s)"
    using l3 l2 l1 s by simp
  ultimately show ?thesis by blast
qed

lemma read_rinex2_cells:
  assumes "read_rinex2_obs rd sort_index E L NoIndex = Inr t" and el: "(l, r) \<in> set (rows t)"
  shows "\<exists>e s. r ! 0 = Stamp e \<and> r ! 2 = Txt s"
proof -
  from read_rinex2_Inr [OF assms(1)] obtain Obs nobs frs cat re srt where
    c: "collect (rinex2_epoch rd Obs nobs L E) [0..<length E] = Inr frs"
    and p: "pd_concat frs = Inr cat"
    and r: "reindex_cols (''epoch'' # ''sys'' # ''prn'' # Obs) cat = Inr re"
    and s: "sort_values [''epoch'', ''prn''] re = Inr srt" and t: "t = reset_index srt"
    by blast
  let ?new = "''epoch'' # ''sys'' # ''prn'' # Obs"
  have ne: "frs \<noteq> []" using p by (rule pd_concat_nonempty)
  have same: "list_all (\<lambda>f. columns f = columns (hd frs)) frs"
    unfolding list_all_iff
  proof
    fix f assume f: "f \<in> set frs"
    from ne have "hd frs \<in> set frs" by simp
    with collect_elem [OF c] f rinex2_epoch_columns show "columns f = columns (hd frs)" by blast
  qed
  from pd_concat_same [OF ne same] p
  have cat: "cat = \<lparr>columns = columns (hd frs), rows = concat (map rows frs)\<rparr>" by simp
  from el have "r \<in> snd ` set (rows srt)"
    by (auto simp: t reset_index_def number_rows_def dest!: set_zip_rightD)
  also have "set (rows srt) = set (rows re)"
    using s by (auto simp: sort_values_def split: if_splits)
  finally obtain l' where "(l', r) \<in> set (rows re)" by auto
  then obtain r0 where r0: "(l', r0) \<in> set (rows cat)" and rr: "r = reindex_row ?new (columns cat) r0"
    using r by (auto simp: reindex_cols_def split: if_splits)
  from r0 obtain fr where fr: "fr \<in> set frs" "(l', r0) \<in> set (rows fr)" by (auto simp: cat)
  from same fr(1) have cc: "columns cat = columns fr" by (simp add: cat list_all_iff)
  from collect_elem [OF c fr(1)] obtain i where "rinex2_epoch rd Obs nobs L E i = Inr fr" by blast
  from rinex2_epoch_cells [OF this fr(2)] obtain e s where
    "map_of (zip (columns fr) r0) ''epoch'' = Some (Stamp e)" "map_of (zip (columns fr) r0) ''prn'' = Some (Txt s)"
    by blast
  then show ?thesis by (simp add: rr cc reindex_row_nth)
qed

lemma cell_key_pair_le:
  "(cell_key (Stamp e), cell_key (Txt s)) \<le> (cell_key (Stamp e'), cell_key (Txt s')) \<longleftrightarrow> (e, s) \<le> (e', s')"
  by (auto simp: less_eq_prod_def less_prod_def)

text \<open>The rows of a RINEX 2 table are sorted by time stamp, then by satellite identifier.\<close>

lemma read_rinex2_epoch_prn_sorted:
  assumes "read_rinex2_obs rd sort_index E L NoIndex = Inr t"
  shows "\<exists>ks. map (\<lambda>(l, r). (r ! 0, r ! 2)) (rows t) = map (\<lambda>(e, p). (Stamp e, Txt p)) ks \<and> sorted ks"
proof -
  define ep where "ep = (\<lambda>(l :: label, r :: cell list).
    (case r ! 0 of Stamp e \<Rightarrow> e | _ \<Rightarrow> 0, case r ! 2 of Txt s \<Rightarrow> s | _ \<Rightarrow> []))"
  have cells: "(\<lambda>(l, r). (r ! 0, r ! 2)) x = (\<lambda>(e, p). (Stamp e, Txt p)) (ep x)
      \<and> (\<lambda>(l, r). (cell_key (r ! 0), cell_key (r ! 2))) x = (\<lambda>(e, p). (cell_key (Stamp e), cell_key (Txt p))) (ep x)"
    if "x \<in> set (rows t)" for x
  proof -
    obtain l r where x: "x = (l, r)" by (cases x)
    with read_rinex2_cells [OF assms] that obtain e s where "r ! 0 = Stamp e" "r ! 2 = Txt s" by blast
    then show ?thesis by (simp add: x ep_def)
  qed
  have 1: "map (\<lambda>(l, r). (r ! 0, r ! 2)) (rows t) = map (\<lambda>(e, p). (Stamp e, Txt p)) (map ep (rows t))"
    using cells by (simp add: comp_def)
  have 2: "map (\<lambda>(l, r). (cell_key (r ! 0), cell_key (r ! 2))) (rows t)
      = map (\<lambda>(e, p). (cell_key (Stamp e), cell_key (Txt p))) (map ep (rows t))"
    using cells by (simp add: comp_def)
  from read_rinex2_sorted [OF assms] have
    "sorted (map (\<lambda>(e, p). (cell_key (Stamp e), cell_key (Txt p))) (map ep (rows t)))"
    unfolding 2 by simp
  then have "sorted_wrt (\<lambda>x y. (\<lambda>(e, p). (cell_key (Stamp e), cell_key (Txt p))) x
        \<le> (\<lambda>(e, p). (cell_key (Stamp e), cell_key (Txt p))) y) (map ep (rows t))"
    by (simp only: sorted_map)
  then have "sorted_wrt (\<lambda>x y. x \<le> y) (map ep (rows t))"
    by (rule sorted_wrt_mono_rel [rotated]) (auto simp only: split_def cell_key_pair_le prod.collapse)
  then have "sorted (map ep (rows t))" by simp
  with 1 show ?thesis by blast
qed

lemma list_all2_upt_mono:
  assumes "list_all2 R [0..<n] ys" and "\<And>i y. i < n \<Longrightarrow> R i y \<Longrightarrow> Q i y"
  shows "list_all2 Q [0..<n] ys"
  using assms(1) by (rule list.rel_mono_strong) (use assms(2) in auto)

lemma read_rinex3_declared:
  assumes r: "read_rinex3_obs tc sort_index E L NoIndex = Inr t" and d: "declared_file L E"
  shows "map (\<lambda>(l, r). r ! 2) (rows t) = concat (map (\<lambda>i. map prn_cell (sat_lines L E i)) [0..<length E])
    \<and> length (rows t) = sum_list (map (\<lambda>i. length (sat_lines L E i)) [0..<length E])"
proof -
  from read_rinex3_Inr [OF r] obtain H dict nm frs cat where
    hl: "header_lines L = Inr H" and h: "rinex3_header H = Inr (dict, nm)"
    and c: "collect (rinex3_epoch tc dict nm L E) [0..<length E] = Inr frs"
    and p: "pd_concat frs = Inr cat" and t: "t = reset_index cat"
    by blast
  note catalog = rinex3_header_catalog [OF h]
  note cat = read_rinex3_rows [OF c p]
  from d have dl: "list_all (declared_line (map fst dict)) (sat_lines L E i)" if "i < length E" for i
    using that by (simp add: declared_file_def hl h list_all_iff)
  have all: "list_all2 (\<lambda>i fr. map prn_cell (sat_lines L E i) = map (\<lambda>(l, r). r ! 2) (rows fr)
        \<and> length (sat_lines L E i) = length (rows fr)) [0..<length E] frs"
    using collect_Inr [OF c]
  proof (rule list_all2_upt_mono)
    fix i fr assume i: "i < length E" and e: "rinex3_epoch tc dict nm L E i = Inr fr"
    from rinex3_epoch_declared [OF catalog e dl [OF i]] have
      a: "map fst (rows fr) = map Pos [0..<length (sat_lines L E i)]"
      and b: "map (\<lambda>(l, r). r ! 2) (rows fr) = map prn_cell (sat_lines L E i)"
      by simp_all
    from arg_cong [OF a, of length] b
    show "map prn_cell (sat_lines L E i) = map (\<lambda>(l, r). r ! 2) (rows fr)
        \<and> length (sat_lines L E i) = length (rows fr)" by simp
  qed
  have "list_all2 (\<lambda>i fr. map prn_cell (sat_lines L E i) = map (\<lambda>(l, r). r ! 2) (rows fr)) [0..<length E] frs"
    using all by (rule list_all2_mono) simp
  then have 1: "map (\<lambda>i. map prn_cell (sat_lines L E i)) [0..<length E] = map (\<lambda>fr. map (\<lambda>(l, r). r ! 2) (rows fr)) frs"
    by (rule list_all2_map_eq)
  have "list_all2 (\<lambda>i fr. length (sat_lines L E i) = length (rows fr)) [0..<length E] frs"
    using all by (rule list_all2_mono) simp
  then have 2: "map (\<lambda>i. length (sat_lines L E i)) [0..<length E] = map (\<lambda>fr. length (rows fr)) frs"
    by (rule list_all2_map_eq)
  have "map (\<lambda>(l, r). r ! 2) (rows t) = map (\<lambda>r. r ! 2) (map snd (rows t))"
    by (simp add: comp_def split_def)
  also have "\<dots> = map (\<lambda>r. r ! 2) (map snd (concat (map rows frs)))"
    by (simp add: t reset_index_def cat)
  also have "\<dots> = concat (map (\<lambda>fr. map (\<lambda>(l, r). r ! 2) (rows fr)) frs)"
    by (simp add: map_concat comp_def split_def)
  finally have "map (\<lambda>(l, r). r ! 2) (rows t) = concat (map (\<lambda>i. map prn_cell (sat_lines L E i)) [0..<length E])"
    by (simp only: 1)
  moreover have "length (rows t) = sum_list (map (\<lambda>fr. length (rows fr)) frs)"
    by (simp add: t cat length_concat comp_def)
  ultimately show ?thesis by (simp only: 2)
qed

lemma read_rinex3_index:
  assumes "read_rinex3_obs tc sort_index E L NoIndex = Inr t"
  shows "map fst (rows t) = map Pos [0..<length (rows t)]"
proof -
  from read_rinex3_Inr [OF assms] obtain cat where "t = reset_index cat" by blast
  then show ?thesis by (simp add: reset_index_def)
qed

lemma ex3_declared: "declared_file ex3_lines ex3_epochs"
  by code_simp

text \<open>
  C2, as amended. When a reader returns a table, whatever the \<^verbatim>\<open>set_index\<close>
  argument and for any sort of the index that returns the rows it is given, its number
  of rows is the sum over the epochs of the number of satellites of the epoch: for
  RINEX 2 the number that the EPOCH/SAT record declares; for RINEX 3, in a file whose
  satellite records all belong to declared systems, the number of lines of the block of
  the epoch.
\<close>

theorem row_count:
  assumes "\<And>fr. columns (sort_index fr) = columns fr \<and> mset (rows (sort_index fr)) = mset (rows fr)"
  shows "(read_rinex2_obs rd sort_index E2 L2 set_index_arg = Inr t2 \<longrightarrow>
      length (rows t2) = sum_list (map (rinex2_nsat rd L2 E2) [0..<length E2]))
   \<and> (read_rinex3_obs text_column sort_index E3 L3 set_index_arg = Inr t3 \<and> declared_file L3 E3 \<longrightarrow>
      length (rows t3) = sum_list (map (\<lambda>iepoc. length (sat_lines L3 E3 iepoc)) [0..<length E3]))"
proof (intro conjI impI)
  assume "read_rinex2_obs rd sort_index E2 L2 set_index_arg = Inr t2"
  then show "length (rows t2) = sum_list (map (rinex2_nsat rd L2 E2) [0..<length E2])"
    by (rule read_rinex2_row_count [OF assms])
next
  assume a: "read_rinex3_obs text_column sort_index E3 L3 set_index_arg = Inr t3 \<and> declared_file L3 E3"
  then obtain t0 where t0: "read_rinex3_obs text_column sort_index E3 L3 NoIndex = Inr t0"
    and k: "rekey sort_index set_index_arg t0 = Inr t3"
    by (auto simp: read_rinex3_obs_rekey [of text_column sort_index E3 L3 set_index_arg] bind_err_def split: sum.splits)
  from read_rinex3_declared [OF t0] a length_rekey [OF assms k]
  show "length (rows t3) = sum_list (map (\<lambda>iepoc. length (sat_lines L3 E3 iepoc)) [0..<length E3])"
    by simp
qed

theorem row_count_witness:
  "read_rinex2_obs ex_rd stable_sort_index ex2_epochs ex2_lines NoIndex = Inr ex2_table
   \<and> read_rinex3_obs has_prn_cell stable_sort_index ex3_epochs ex3_lines NoIndex = Inr ex3_table
   \<and> declared_file ex3_lines ex3_epochs
   \<and> length (rows ex2_table) = 2 \<and> rinex2_nsat ex_rd ex2_lines ex2_epochs 0 = 2
   \<and> length (rows ex3_table) = 2 \<and> length (sat_lines ex3_lines ex3_epochs 0) = 2"
proof -
  have n2: "rinex2_nsat ex_rd ex2_lines ex2_epochs 0 = 2" by code_simp
  have n3: "length (sat_lines ex3_lines ex3_epochs 0) = 2" by code_simp
  have e2: "[0..<length ex2_epochs] = [0]" and e3: "[0..<length ex3_epochs] = [0]"
    by (simp_all add: ex2_epochs_def ex3_epochs_def)
  from row_count [where sort_index = stable_sort_index and rd = ex_rd and ?E2.0 = ex2_epochs
      and ?L2.0 = ex2_lines and set_index_arg = NoIndex and ?t2.0 = ex2_table
      and text_column = has_prn_cell and ?E3.0 = ex3_epochs and ?L3.0 = ex3_lines and ?t3.0 = ex3_table,
      OF stable_sort_index_rows]
    ex2_eval ex3_eval ex3_declared
  have "length (rows ex2_table) = 2 \<and> length (rows ex3_table) = 2"
    by (simp add: e2 e3 n2 n3)
  with ex2_eval ex3_eval ex3_declared n2 n3 show ?thesis by simp
qed

text \<open>
  The claim as stated fails for \<^verbatim>\<open>read_rinex3_obs\<close>: the epoch of
  \<open>ex3_undeclared_lines\<close> records the two satellites \<open>G01\<close> and \<open>R01\<close>, the header
  declares no system \<open>R\<close>, and the table returned has one row.
\<close>

theorem row_count_counterexample:
  "map prn_cell (sat_lines ex3_undeclared_lines ex3_undeclared_epochs 0) = [Txt ''G01'', Txt ''R01'']
   \<and> read_rinex3_obs has_prn_cell stable_sort_index ex3_undeclared_epochs ex3_undeclared_lines NoIndex =
     Inr \<lparr>columns = [''epoch'', ''sys'', ''prn'', ''C1C'', ''C1C_LLI'', ''C1C_SSI'', ''L1C'', ''L1C_LLI'', ''L1C_SSI''],
          rows = [(Pos 0, [Stamp 100, Txt ''G'', Txt ''G01'', Txt ''1.000'', Txt ''1'', Txt ''7'', Txt ''2.000'', NaN, NaN])]\<rparr>"
  by code_simp

text \<open>
  C4, as amended. With \<^verbatim>\<open>set_index\<close> omitted, the rows of the table of
  \<^verbatim>\<open>read_rinex2_obs\<close> are sorted ascending by the pair (epoch, prn), the cells of its
  columns 0 and 2, and are labelled \<open>0, 1, \<dots>\<close>. The rows of the table of
  \<^verbatim>\<open>read_rinex3_obs\<close> are labelled \<open>0, 1, \<dots>\<close> too and, in a file whose satellite
  records all belong to declared systems, they follow the epochs and, within an epoch,
  the lines of the file: the identifiers in column 2 are those of the lines of the
  blocks, in order. No row is moved to the place of its system in the header.
\<close>

theorem row_order:
  "(read_rinex2_obs rd sort_index E2 L2 NoIndex = Inr t2 \<longrightarrow>
      (\<exists>ks. map (\<lambda>(l, r). (r ! 0, r ! 2)) (rows t2) = map (\<lambda>(e, p). (Stamp e, Txt p)) ks \<and> sorted ks)
      \<and> map fst (rows t2) = map Pos [0..<length (rows t2)])
   \<and> (read_rinex3_obs text_column sort_index E3 L3 NoIndex = Inr t3 \<longrightarrow>
      map fst (rows t3) = map Pos [0..<length (rows t3)]
      \<and> (declared_file L3 E3 \<longrightarrow>
           map (\<lambda>(l, r). r ! 2) (rows t3)
             = concat (map (\<lambda>iepoc. map prn_cell (sat_lines L3 E3 iepoc)) [0..<length E3])))"
  using read_rinex2_epoch_prn_sorted [of rd sort_index E2 L2 t2] read_rinex2_sorted [of rd sort_index E2 L2 t2]
    read_rinex3_declared [of text_column sort_index E3 L3 t3] read_rinex3_index [of text_column sort_index E3 L3 t3]
  by blast

theorem row_order_witness:
  "read_rinex2_obs ex_rd stable_sort_index ex2_epochs ex2_lines NoIndex = Inr ex2_table
   \<and> read_rinex3_obs has_prn_cell stable_sort_index ex3_epochs ex3_lines NoIndex = Inr ex3_table
   \<and> declared_file ex3_lines ex3_epochs
   \<and> (\<exists>ks. map (\<lambda>(l, r). (r ! 0, r ! 2)) (rows ex2_table) = map (\<lambda>(e, p). (Stamp e, Txt p)) ks \<and> sorted ks)
   \<and> map (\<lambda>(l, r). r ! 2) (rows ex3_table) = map prn_cell (sat_lines ex3_lines ex3_epochs 0)
   \<and> map fst (rows ex3_table) = [Pos 0, Pos 1]"
proof -
  have e3: "[0..<length ex3_epochs] = [0]" by (simp add: ex3_epochs_def)
  have l3: "map Pos [0..<length (rows ex3_table)] = [Pos 0, Pos 1]" by (simp add: ex3_table_def)
  from row_order [of ex_rd stable_sort_index ex2_epochs ex2_lines ex2_table
      has_prn_cell ex3_epochs ex3_lines ex3_table]
    ex2_eval ex3_eval ex3_declared
  have "(\<exists>ks. map (\<lambda>(l, r). (r ! 0, r ! 2)) (rows ex2_table) = map (\<lambda>(e, p). (Stamp e, Txt p)) ks \<and> sorted ks)
    \<and> map (\<lambda>(l, r). r ! 2) (rows ex3_table) = map prn_cell (sat_lines ex3_lines ex3_epochs 0)
    \<and> map fst (rows ex3_table) = [Pos 0, Pos 1]"
    by (simp add: e3 l3)
  with ex2_eval ex3_eval ex3_declared show ?thesis by simp
qed

text \<open>
  The claim as stated fails for \<^verbatim>\<open>read_rinex3_obs\<close>: the header of \<open>ex3_lines\<close> declares
  \<open>G\<close> before \<open>R\<close>, and the lines of its epoch are \<open>R01\<close> then \<open>G01\<close>. Concatenating
  the rows system by system in the order of the declarations gives \<open>G01\<close> then \<open>R01\<close>;
  the table returned has \<open>R01\<close> then \<open>G01\<close>, the order of the lines.
\<close>

theorem row_order_counterexample:
  "map fst (fst (projr (rinex3_header (take 4 ex3_lines)))) = [''G'', ''R'']
   \<and> map prn_cell (sat_lines ex3_lines ex3_epochs 0) = [Txt ''R01'', Txt ''G01'']
   \<and> read_rinex3_obs has_prn_cell stable_sort_index ex3_epochs ex3_lines NoIndex =
     Inr \<lparr>columns = [''epoch'', ''sys'', ''prn'', ''C1C'', ''C1C_LLI'', ''C1C_SSI'', ''L1C'', ''L1C_LLI'', ''L1C_SSI''],
          rows = [(Pos 0, [Stamp 100, Txt ''R'', Txt ''R01'', Txt ''5.000'', NaN, NaN, NaN, NaN, NaN]),
                  (Pos 1, [Stamp 100, Txt ''G'', Txt ''G01'', Txt ''1.000'', Txt ''1'', Txt ''7'', Txt ''2.000'', NaN, NaN])]\<rparr>"
  by code_simp

section \<open>The system of a row\<close>

lemma read_rinex2_row_length:
  assumes "read_rinex2_obs rd sort_index E L NoIndex = Inr t" and el: "(l, r) \<in> set (rows t)"
  shows "3 \<le> length r"
proof -
  from read_rinex2_Inr [OF assms(1)] obtain Obs cat re srt where
    r: "reindex_cols (''epoch'' # ''sys'' # ''prn'' # Obs) cat = Inr re"
    and s: "sort_values [''epoch'', ''prn''] re = Inr srt" and t: "t = reset_index srt"
    by blast
  from el have "r \<in> snd ` set (rows srt)"
    by (auto simp: t reset_index_def number_rows_def dest!: set_zip_rightD)
  also have "set (rows srt) = set (rows re)"
    using s by (auto simp: sort_values_def split: if_splits)
  finally obtain l' where "(l', r) \<in> set (rows re)" by auto
  then show ?thesis
    using r by (auto simp: reindex_cols_def reindex_row_def split: if_splits)
qed

lemma rinex3_epoch_row_length:
  assumes cat: "distinct (map fst dict) \<and> dict \<noteq> []
      \<and> (\<forall>(s, names) \<in> set dict. \<exists>codes. names = sys_columns codes)"
    and ep: "rinex3_epoch tc dict nm L E i = Inr fr" and el: "(l, r) \<in> set (rows fr)"
  shows "3 \<le> length r"
proof -
  from rinex3_epoch_Inr [OF ep] obtain raw stk ok ip where
    rd: "read_fwf (sat_widths nm) (concat (slice_to L (snd (E ! i) + 1) (epoch_end E i))) = Inr raw"
    and stk: "collect (select_sys tc raw (length (sat_widths nm))) dict = Inr stk"
    and ok: "pd_concat stk = Inr ok"
    and fr: "fr = align_concat (fst (E ! i)) ip ok"
    by blast
  from rinex3_prn_first [OF cat stk ok] obtain cs where cs: "columns ok = ''prn'' # cs" ..
  have ne: "r0 \<noteq> []" if "(l0, r0) \<in> set (rows ok)" for l0 r0
  proof -
    from pd_concat_elem [OF ok that] obtain f r1 where
      f: "f \<in> set stk" "(l0, r1) \<in> set (rows f)"
      and r0: "r0 = r1 \<or> r0 = reindex_row (columns ok) (columns f) r1"
      by blast
    from collect_elem [OF stk f(1)] obtain e where
      e: "e \<in> set dict" "select_sys tc raw (length (sat_widths nm)) e = Inr f" by blast
    from cat e(1) obtain codes where codes: "snd e = sys_columns codes" by (cases e) auto
    from select_sys_Inr [OF e(2)] f(2) obtain j where j: "j < length raw"
      and r1: "r1 = take (length (snd e)) (raw ! j)"
      by (auto simp: number_rows_elem)
    have "raw ! j \<in> set raw" using j by simp
    from read_fwf_row_length [OF rd this] have "raw ! j \<noteq> []" by (auto simp: sat_widths_def)
    then have "r1 \<noteq> []" by (simp add: r1 codes length_sys_columns)
    with r0 show ?thesis by (auto simp: reindex_row_def cs)
  qed
  from el obtain x where r: "r = x # (case map_of (rows ok) l of
        None \<Rightarrow> replicate (Suc (length (columns ok))) NaN | Some r0 \<Rightarrow> str0 (r0 ! ip) # r0)"
    by (auto simp: fr align_concat_def Let_def)
  show ?thesis
  proof (cases "map_of (rows ok) l")
    case None
    then show ?thesis by (simp add: r cs)
  next
    case (Some r0)
    then have "(l, r0) \<in> set (rows ok)" by (rule map_of_SomeD)
    from ne [OF this] have "1 \<le> length r0" by (cases r0) auto
    then show ?thesis by (simp add: r Some)
  qed
qed

lemma read_rinex3_row_length:
  assumes "read_rinex3_obs tc sort_index E L NoIndex = Inr t" and el: "(l, r) \<in> set (rows t)"
  shows "3 \<le> length r"
proof -
  from read_rinex3_Inr [OF assms(1)] obtain H dict nm frs cat where
    h: "rinex3_header H = Inr (dict, nm)"
    and c: "collect (rinex3_epoch tc dict nm L E) [0..<length E] = Inr frs"
    and p: "pd_concat frs = Inr cat" and t: "t = reset_index cat"
    by blast
  note cat = read_rinex3_rows [OF c p]
  from el have "r \<in> snd ` set (rows cat)"
    by (auto simp: t reset_index_def number_rows_def dest!: set_zip_rightD)
  then obtain l' fr where fr: "fr \<in> set frs" "(l', r) \<in> set (rows fr)" by (auto simp: cat)
  from collect_elem [OF c fr(1)] obtain i where "rinex3_epoch tc dict nm L E i = Inr fr" by blast
  from rinex3_epoch_row_length [OF rinex3_header_catalog [OF h] this fr(2)] show ?thesis .
qed

text \<open>The cells of a row under \<open>sys\<close> and \<open>prn\<close>, before and after the re-keying.\<close>

lemma row_field_plain:
  assumes "columns fr = ''epoch'' # ''sys'' # ''prn'' # cs" and "3 \<le> length r"
  shows "row_field [] fr (l, r) ''sys'' = Some (r ! 1) \<and> row_field [] fr (l, r) ''prn'' = Some (r ! 2)"
proof -
  from assms(2) obtain x y z rest where r: "r = x # y # z # rest"
    by (cases r; cases "tl r"; cases "tl (tl r)") auto
  show ?thesis by (cases l) (simp_all add: row_field_def assms(1) r)
qed

lemma map_of_key_cells:
  "map_of (map (\<lambda>k. (k, F k)) ks) c = (if c \<in> set ks then Some (F c) else None)"
  by (induction ks) auto

lemma map_of_filter_irrelevant:
  "\<forall>i \<in> set is. \<not> Q i \<longrightarrow> fst (h i) \<noteq> c \<Longrightarrow> map_of (map h (filter Q is)) c = map_of (map h is) c"
  by (induction "is") (auto simp: prod_eq_iff)

lemma col_positions_hd:
  "col_positions k cols \<noteq> [] \<Longrightarrow> cols ! hd (col_positions k cols) = k"
proof -
  assume "col_positions k cols \<noteq> []"
  then have "hd (col_positions k cols) \<in> set (col_positions k cols)" by simp
  then show ?thesis by (simp add: col_positions_def)
qed

lemma zip_same_maps: "zip (map f xs) (map g xs) = map (\<lambda>x. (f x, g x)) xs"
  by (induction xs) auto

lemma set_index_field:
  assumes si: "set_index ks fr = Inr fr'" and cols: "columns fr = ''epoch'' # ''sys'' # ''prn'' # cs"
    and el: "(l', r') \<in> set (rows fr')"
  shows "\<exists>l r. (l, r) \<in> set (rows fr) \<and> row_field ks fr' (l', r') ''sys'' = Some (r ! 1)
     \<and> row_field ks fr' (l', r') ''prn'' = Some (r ! 2)"
proof -
  define n where "n = length (columns fr)"
  define kpos where "kpos = map (\<lambda>k. hd (col_positions k (columns fr))) ks"
  define rest where "rest = filter (\<lambda>i. i \<notin> set kpos) [0..<n]"
  from si have pos: "\<forall>k \<in> set ks. col_positions k (columns fr) \<noteq> []"
    by (auto simp: set_index_def list_all_iff split: if_splits)
  from si have fr': "fr' = \<lparr>columns = map (\<lambda>i. columns fr ! i) rest,
      rows = map (\<lambda>(l, r). (Key (map (\<lambda>i. r ! i) kpos), map (\<lambda>i. r ! i) rest)) (rows fr)\<rparr>"
    by (auto simp: set_index_def Let_def rest_def kpos_def n_def split: if_splits)
  with el obtain l r where lr: "(l, r) \<in> set (rows fr)"
    and l': "l' = Key (map (\<lambda>i. r ! i) kpos)" and r': "r' = map (\<lambda>i. r ! i) rest"
    by auto
  define F where "F = (\<lambda>k. r ! hd (col_positions k (columns fr)))"
  define h where "h = (\<lambda>i. (columns fr ! i, r ! i))"
  have A: "zip ks (map (\<lambda>i. r ! i) kpos) = map (\<lambda>k. (k, F k)) ks"
    using zip_same_maps [of "\<lambda>k. k" ks F] by (simp add: kpos_def F_def comp_def)
  have B: "zip (columns fr') r' = map h rest"
    by (simp add: fr' r' zip_same_maps h_def)
  have field: "row_field ks fr' (l', r') c =
      (if c \<in> set ks then Some (F c) else map_of (map h [0..<n]) c)" for c
  proof (cases "c \<in> set ks")
    case True
    then show ?thesis by (simp add: row_field_def l' A B map_of_key_cells map_add_def)
  next
    case False
    have "\<forall>i \<in> set [0..<n]. \<not> i \<notin> set kpos \<longrightarrow> fst (h i) \<noteq> c"
    proof (intro ballI impI)
      fix i assume "\<not> i \<notin> set kpos"
      then obtain k where k: "k \<in> set ks" "i = hd (col_positions k (columns fr))"
        by (auto simp: kpos_def)
      with pos have "columns fr ! i = k" by (simp add: col_positions_hd)
      with k(1) False show "fst (h i) \<noteq> c" by (auto simp: h_def)
    qed
    from map_of_filter_irrelevant [OF this] have "map_of (map h rest) c = map_of (map h [0..<n]) c"
      by (simp add: rest_def)
    with False show ?thesis
      by (simp add: row_field_def l' A B map_of_key_cells map_add_def)
  qed
  have "3 \<le> n" by (simp add: n_def cols)
  then have up: "[0..<n] = 0 # Suc 0 # Suc (Suc 0) # [Suc (Suc (Suc 0))..<n]"
    by (simp add: upt_conv_Cons)
  have c2: "columns fr ! Suc (Suc 0) = ''prn''" by (simp add: cols)
  have m1: "map_of (map h [0..<n]) ''sys'' = Some (r ! 1)"
    and m2: "map_of (map h [0..<n]) ''prn'' = Some (r ! 2)"
    unfolding up by (simp_all add: h_def cols c2 numeral_2_eq_2)
  have f1: "F ''sys'' = r ! 1" and f2: "F ''prn'' = r ! 2"
    by (simp_all add: F_def cols col_positions_Cons numeral_2_eq_2)
  have "row_field ks fr' (l', r') ''sys'' = Some (r ! 1)"
    by (simp add: field m1 f1)
  moreover have "row_field ks fr' (l', r') ''prn'' = Some (r ! 2)"
    by (simp add: field m2 f2)
  ultimately show ?thesis using lr by blast
qed

text \<open>
  A table with the columns \<open>epoch\<close>, \<open>sys\<close>, \<open>prn\<close> in front, whose rows have these three
  cells and hold under \<open>sys\<close> the first character of \<open>prn\<close>, keeps that relation in every
  row after the re-keying by any \<^verbatim>\<open>set_index\<close> argument.
\<close>

lemma rekey_sys:
  assumes srt: "\<And>fr. columns (sort_index fr) = columns fr \<and> mset (rows (sort_index fr)) = mset (rows fr)"
    and k: "rekey sort_index arg t0 = Inr t"
    and cols: "columns t0 = ''epoch'' # ''sys'' # ''prn'' # cs"
    and inv: "\<forall>(l, r) \<in> set (rows t0). 3 \<le> length r \<and> r ! 1 = str0 (r ! 2)"
    and el: "row \<in> set (rows t)"
  shows "\<exists>p. row_field (index_names arg) t row ''prn'' = Some p
     \<and> row_field (index_names arg) t row ''sys'' = Some (str0 p)"
proof (cases "index_keys arg")
  case None
  with k have t: "t = t0" by (simp add: rekey_def)
  obtain l r where row: "row = (l, r)" by (cases row)
  with el inv have "3 \<le> length r" "r ! 1 = str0 (r ! 2)" by (auto simp: t)
  with row_field_plain [OF cols this(1), of l] show ?thesis
    by (simp add: index_names_def None row t)
next
  case (Some ks)
  with k obtain t' where si: "set_index ks t0 = Inr t'" and t: "t = sort_index t'"
    by (auto simp: rekey_def split: sum.splits)
  obtain l' r' where row: "row = (l', r')" by (cases row)
  from srt [of t'] have "mset (rows (sort_index t')) = mset (rows t')" ..
  from arg_cong [OF this, of set_mset] have "set (rows t) = set (rows t')" by (simp add: t)
  with el row have "(l', r') \<in> set (rows t')" by simp
  from set_index_field [OF si cols this] obtain l r where
    lr: "(l, r) \<in> set (rows t0)" "row_field ks t' (l', r') ''sys'' = Some (r ! 1)"
      "row_field ks t' (l', r') ''prn'' = Some (r ! 2)"
    by blast
  from inv lr(1) have "r ! 1 = str0 (r ! 2)" by auto
  moreover have "row_field ks t row c = row_field ks t' row c" for c
    using srt [of t'] by (simp add: row_field_def t)
  ultimately show ?thesis using lr by (simp add: index_names_def Some row)
qed

text \<open>
  C10. In every row of the table that a reader returns, whatever the \<^verbatim>\<open>set_index\<close>
  argument and for any sort of the index that returns the rows it is given, the cell
  under \<open>prn\<close> exists and the cell under \<open>sys\<close> is its first character
  (\<^verbatim>\<open>.str[0]\<close>: missing when \<open>prn\<close> has no first character). The cells are read by
  name, in the index when the name is a key of the re-keying and in the columns
  otherwise.
\<close>

theorem sys_from_prn:
  assumes "\<And>fr. columns (sort_index fr) = columns fr \<and> mset (rows (sort_index fr)) = mset (rows fr)"
  shows "(read_rinex2_obs rd sort_index E2 L2 set_index_arg = Inr t2 \<longrightarrow>
      (\<forall>row \<in> set (rows t2). \<exists>p.
          row_field (index_names set_index_arg) t2 row ''prn'' = Some p
        \<and> row_field (index_names set_index_arg) t2 row ''sys'' = Some (str0 p)))
   \<and> (read_rinex3_obs text_column sort_index E3 L3 set_index_arg = Inr t3 \<longrightarrow>
      (\<forall>row \<in> set (rows t3). \<exists>p.
          row_field (index_names set_index_arg) t3 row ''prn'' = Some p
        \<and> row_field (index_names set_index_arg) t3 row ''sys'' = Some (str0 p)))"
proof (intro conjI impI ballI)
  fix row
  assume "read_rinex2_obs rd sort_index E2 L2 set_index_arg = Inr t2" and row: "row \<in> set (rows t2)"
  then obtain t0 where t0: "read_rinex2_obs rd sort_index E2 L2 NoIndex = Inr t0"
    and k: "rekey sort_index set_index_arg t0 = Inr t2"
    by (auto simp: read_rinex2_obs_rekey [of rd sort_index E2 L2 set_index_arg] bind_err_def split: sum.splits)
  from read_rinex2_columns [OF t0] obtain cs where cols: "columns t0 = ''epoch'' # ''sys'' # ''prn'' # cs" ..
  have "\<forall>(l, r) \<in> set (rows t0). 3 \<le> length r \<and> r ! 1 = str0 (r ! 2)"
    using read_rinex2_sys [OF t0] read_rinex2_row_length [OF t0] by auto
  from rekey_sys [OF assms k cols this row]
  show "\<exists>p. row_field (index_names set_index_arg) t2 row ''prn'' = Some p
        \<and> row_field (index_names set_index_arg) t2 row ''sys'' = Some (str0 p)" .
next
  fix row
  assume "read_rinex3_obs text_column sort_index E3 L3 set_index_arg = Inr t3" and row: "row \<in> set (rows t3)"
  then obtain t0 where t0: "read_rinex3_obs text_column sort_index E3 L3 NoIndex = Inr t0"
    and k: "rekey sort_index set_index_arg t0 = Inr t3"
    by (auto simp: read_rinex3_obs_rekey [of text_column sort_index E3 L3 set_index_arg] bind_err_def split: sum.splits)
  from read_rinex3_sys [OF t0] obtain cs where cols: "columns t0 = ''epoch'' # ''sys'' # ''prn'' # cs"
    by blast
  have "\<forall>(l, r) \<in> set (rows t0). 3 \<le> length r \<and> r ! 1 = str0 (r ! 2)"
    using read_rinex3_sys [OF t0] read_rinex3_row_length [OF t0] by auto
  from rekey_sys [OF assms k cols this row]
  show "\<exists>p. row_field (index_names set_index_arg) t3 row ''prn'' = Some p
        \<and> row_field (index_names set_index_arg) t3 row ''sys'' = Some (str0 p)" .
qed

theorem sys_from_prn_witness:
  "(\<exists>t. read_rinex2_obs ex_rd stable_sort_index ex2_epochs ex2_lines (Cols [''epoch'', ''prn'']) = Inr t
      \<and> map fst (rows t) = [Key [Stamp 100, Txt ''G01''], Key [Stamp 100, Txt ''G02'']]
      \<and> list_all (\<lambda>row. \<exists>p. row_field [''epoch'', ''prn''] t row ''prn'' = Some p
            \<and> row_field [''epoch'', ''prn''] t row ''sys'' = Some (str0 p)) (rows t))
   \<and> (\<exists>t. read_rinex3_obs has_prn_cell stable_sort_index ex3_epochs ex3_lines (Cols [''epoch'', ''prn'']) = Inr t
      \<and> map fst (rows t) = [Key [Stamp 100, Txt ''G01''], Key [Stamp 100, Txt ''R01'']]
      \<and> list_all (\<lambda>row. \<exists>p. row_field [''epoch'', ''prn''] t row ''prn'' = Some p
            \<and> row_field [''epoch'', ''prn''] t row ''sys'' = Some (str0 p)) (rows t))"
proof -
  define ta where "ta = \<lparr>columns = [''sys'', ''C1'', ''C1_LLI'', ''C1_SSI'', ''L1'', ''L1_LLI'', ''L1_SSI''],
      rows = [(Key [Stamp 100, Txt ''G01''], [Txt ''G'', Txt ''3.000'', NaN, NaN, Txt ''4.000'', NaN, Txt ''8'']),
              (Key [Stamp 100, Txt ''G02''], [Txt ''G'', Txt ''1.000'', Txt ''1'', Txt ''7'', Txt ''2.000'', NaN, NaN])]\<rparr>"
  define tb where "tb = \<lparr>columns = [''sys'', ''C1C'', ''C1C_LLI'', ''C1C_SSI'', ''L1C'', ''L1C_LLI'', ''L1C_SSI''],
      rows = [(Key [Stamp 100, Txt ''G01''], [Txt ''G'', Txt ''1.000'', Txt ''1'', Txt ''7'', Txt ''2.000'', NaN, NaN]),
              (Key [Stamp 100, Txt ''R01''], [Txt ''R'', Txt ''5.000'', NaN, NaN, NaN, NaN, NaN])]\<rparr>"
  have a: "read_rinex2_obs ex_rd stable_sort_index ex2_epochs ex2_lines (Cols [''epoch'', ''prn'']) = Inr ta"
    unfolding ta_def by code_simp
  have b: "read_rinex3_obs has_prn_cell stable_sort_index ex3_epochs ex3_lines (Cols [''epoch'', ''prn'']) = Inr tb"
    unfolding tb_def by code_simp
  have n: "index_names (Cols [''epoch'', ''prn'']) = [''epoch'', ''prn'']"
    by (simp add: index_names_def)
  from sys_from_prn [where sort_index = stable_sort_index and rd = ex_rd and ?E2.0 = ex2_epochs
      and ?L2.0 = ex2_lines and set_index_arg = "Cols [''epoch'', ''prn'']" and ?t2.0 = ta
      and text_column = has_prn_cell and ?E3.0 = ex3_epochs and ?L3.0 = ex3_lines and ?t3.0 = tb,
      OF stable_sort_index_rows] a b
  have la: "list_all (\<lambda>row. \<exists>p. row_field [''epoch'', ''prn''] ta row ''prn'' = Some p
            \<and> row_field [''epoch'', ''prn''] ta row ''sys'' = Some (str0 p)) (rows ta)"
    and lb: "list_all (\<lambda>row. \<exists>p. row_field [''epoch'', ''prn''] tb row ''prn'' = Some p
            \<and> row_field [''epoch'', ''prn''] tb row ''sys'' = Some (str0 p)) (rows tb)"
    unfolding n list_all_iff by blast+
  have ma: "map fst (rows ta) = [Key [Stamp 100, Txt ''G01''], Key [Stamp 100, Txt ''G02'']]"
    and mb: "map fst (rows tb) = [Key [Stamp 100, Txt ''G01''], Key [Stamp 100, Txt ''R01'']]"
    by (simp_all add: ta_def tb_def)
  show ?thesis
  proof (intro conjI)
    show "\<exists>t. read_rinex2_obs ex_rd stable_sort_index ex2_epochs ex2_lines (Cols [''epoch'', ''prn'']) = Inr t
      \<and> map fst (rows t) = [Key [Stamp 100, Txt ''G01''], Key [Stamp 100, Txt ''G02'']]
      \<and> list_all (\<lambda>row. \<exists>p. row_field [''epoch'', ''prn''] t row ''prn'' = Some p
            \<and> row_field [''epoch'', ''prn''] t row ''sys'' = Some (str0 p)) (rows t)"
      by (rule exI [of _ ta]) (intro conjI a ma la)
    show "\<exists>t. read_rinex3_obs has_prn_cell stable_sort_index ex3_epochs ex3_lines (Cols [''epoch'', ''prn'']) = Inr t
      \<and> map fst (rows t) = [Key [Stamp 100, Txt ''G01''], Key [Stamp 100, Txt ''R01'']]
      \<and> list_all (\<lambda>row. \<exists>p. row_field [''epoch'', ''prn''] t row ''prn'' = Some p
            \<and> row_field [''epoch'', ''prn''] t row ''sys'' = Some (str0 p)) (rows t)"
      by (rule exI [of _ tb]) (intro conjI b mb lb)
  qed
qed

end
